theory Spec2Isabelle
  imports Complex_Main "HOL-Library.Word" "HOL-Library.List_Lexorder" "HOL-Library.Char_ord"
begin

section \<open>fits\_to\_mp4.py: frames\<close>

text \<open>
  The script \<^verbatim>\<open>src/fits_to_mp4.py\<close> turns a directory of FITS exposures into one video.
  This part embeds what it does to one frame (lines 63 to 84): transpose, normalise,
  replicate a grey frame into three channels, pad to even height and width.

  A decoded exposure is a 2-D or a 3-D array; the else branch of line 74 is written for
  the 2-D one. Arrays are nested lists in row-major order, as \<^verbatim>\<open>tobytes\<close> walks them.
  Sample values are exact rationals: the rounding of binary floating point and the
  wrap-around of NumPy's fixed-width integers are not part of this model. What the
  floating-point division does at a zero divisor is part of it (\<open>fdiv\<close>).

  A Python \<^verbatim>\<open>str\<close> is the list of its Unicode code points; \<open>asc\<close> gives the code points of
  a text that the script itself spells out. Paths are POSIX paths.
\<close>

type_synonym ustr = "nat list"

definition asc :: "string \<Rightarrow> ustr" where
  "asc s = map of_char s"

datatype fits_data = D2 "rat list list" | D3 "rat list list list"

type_synonym img = "8 word list list list"

datatype error =
    SystemExit int
  | DecodeError
  | ValueError
  | IndexError
  | FileNotFoundError
  | OSError
  | TimeoutExpired
  | NameError
  | UnicodeDecodeError
  | ImwriteError
  | CalledProcessError int "ustr list"

subsection \<open>Floating-point results\<close>

text \<open>
  NumPy's true division of arrays never raises: a zero divisor gives \<^verbatim>\<open>nan\<close> (for 0/0)
  or an infinity, with a RuntimeWarning.
\<close>

datatype fval = Fin rat | PInf | NInf | NaN

definition fdiv :: "rat \<Rightarrow> rat \<Rightarrow> fval" where
  "fdiv a b =
     (if b \<noteq> 0 then Fin (a / b)
      else if a = 0 then NaN
      else if 0 < a then PInf else NInf)"

fun fmul :: "fval \<Rightarrow> rat \<Rightarrow> fval" where
  "fmul (Fin q) c = Fin (q * c)"
| "fmul PInf c = (if c = 0 then NaN else if 0 < c then PInf else NInf)"
| "fmul NInf c = (if c = 0 then NaN else if 0 < c then NInf else PInf)"
| "fmul NaN c = NaN"

definition trunc :: "rat \<Rightarrow> int" where
  "trunc q = (if 0 \<le> q then \<lfloor>q\<rfloor> else \<lceil>q\<rceil>)"

text \<open>
  \<^verbatim>\<open>.astype(np.uint8)\<close> drops the fraction of a finite value and keeps the low eight
  bits. NumPy leaves the cast of \<^verbatim>\<open>nan\<close> and of the infinities to the platform: \<open>und\<close>
  is the byte the platform gives.
\<close>

fun astype_uint8 :: "8 word \<Rightarrow> fval \<Rightarrow> 8 word" where
  "astype_uint8 und (Fin q) = word_of_int (trunc q)"
| "astype_uint8 und PInf = und"
| "astype_uint8 und NInf = und"
| "astype_uint8 und NaN = und"

subsection \<open>Normalisation (lines 66 to 77)\<close>

text \<open>
  Both branches evaluate
  \<^verbatim>\<open>((data - data.min()) / (data.max() - data.min()) * 255).astype(np.uint8)\<close>.
  \<^verbatim>\<open>data.min()\<close> and \<^verbatim>\<open>data.max()\<close> take no axis: they range over every sample of the
  array. On an array with no sample they raise ValueError.
\<close>

definition data_min :: "rat list \<Rightarrow> rat" where
  "data_min xs = Min (set xs)"

definition data_max :: "rat list \<Rightarrow> rat" where
  "data_max xs = Max (set xs)"

definition norm_quotient :: "rat \<Rightarrow> rat \<Rightarrow> rat \<Rightarrow> fval" where
  "norm_quotient lo hi v = fdiv (v - lo) (hi - lo)"

definition norm_sample :: "8 word \<Rightarrow> rat \<Rightarrow> rat \<Rightarrow> rat \<Rightarrow> 8 word" where
  "norm_sample und lo hi v = astype_uint8 und (fmul (norm_quotient lo hi v) 255)"

definition normalize2 :: "8 word \<Rightarrow> rat list list \<Rightarrow> error + 8 word list list" where
  "normalize2 und g =
     (let xs = concat g in
      if xs = [] then Inl ValueError
      else Inr (map (map (norm_sample und (data_min xs) (data_max xs))) g))"

definition normalize3 :: "8 word \<Rightarrow> rat list list list \<Rightarrow> error + img" where
  "normalize3 und a =
     (let xs = concat (concat a) in
      if xs = [] then Inl ValueError
      else Inr (map (map (map (norm_sample und (data_min xs) (data_max xs)))) a))"

text \<open>
  \<^verbatim>\<open>np.transpose(data, (1, 2, 0))\<close>: the result at \<open>(i, j, k)\<close> is the input at
  \<open>(k, i, j)\<close>.
\<close>

definition transpose_120 :: "'a list list list \<Rightarrow> 'a list list list" where
  "transpose_120 a =
     (case a of
        [] \<Rightarrow> []
      | p # _ \<Rightarrow>
          (case p of
             [] \<Rightarrow> []
           | r # _ \<Rightarrow>
               map (\<lambda>i. map (\<lambda>j. map (\<lambda>k. a ! k ! i ! j) [0..<length a]) [0..<length r])
                 [0..<length p]))"

text \<open>\<^verbatim>\<open>cv2.cvtColor(norm, cv2.COLOR_GRAY2BGR)\<close> repeats the grey value in three channels.\<close>

definition gray2bgr :: "8 word list list \<Rightarrow> img" where
  "gray2bgr g = map (map (\<lambda>v. [v, v, v])) g"

definition to_rgb :: "8 word \<Rightarrow> fits_data \<Rightarrow> error + img" where
  "to_rgb und data =
     (case data of
        D3 a \<Rightarrow> normalize3 und (if length a = 3 then transpose_120 a else a)
      | D2 g \<Rightarrow> (case normalize2 und g of Inl e \<Rightarrow> Inl e | Inr n \<Rightarrow> Inr (gray2bgr n)))"

subsection \<open>Padding to even dimensions (lines 79 to 84)\<close>

text \<open>
  \<^verbatim>\<open>rgb.shape\<close> of a nested list. An array reaches the padding only after
  \<^verbatim>\<open>data.min()\<close> returned, so it has at least one sample and the first row and the first
  pixel exist.
\<close>

definition img_height :: "'a list list list \<Rightarrow> nat" where
  "img_height rgb = length rgb"

definition img_width :: "'a list list list \<Rightarrow> nat" where
  "img_width rgb = (case rgb of [] \<Rightarrow> 0 | r # _ \<Rightarrow> length r)"

definition img_chans :: "'a list list list \<Rightarrow> nat" where
  "img_chans rgb = (case rgb of [] \<Rightarrow> 0 | r # _ \<Rightarrow> (case r of [] \<Rightarrow> 0 | p # _ \<Rightarrow> length p))"

text \<open>
  \<^verbatim>\<open>np.pad(rgb, ((0, 1), (0, 0), (0, 0)), mode='constant')\<close> appends one row of zeros,
  \<^verbatim>\<open>np.pad(rgb, ((0, 0), (0, 1), (0, 0)), mode='constant')\<close> one zero pixel to every row.
\<close>

definition pad_row :: "img \<Rightarrow> img" where
  "pad_row rgb = rgb @ [replicate (img_width rgb) (replicate (img_chans rgb) 0)]"

definition pad_col :: "img \<Rightarrow> img" where
  "pad_col rgb = map (\<lambda>r. r @ [replicate (img_chans rgb) 0]) rgb"

definition pad_even :: "img \<Rightarrow> img" where
  "pad_even rgb =
     (let height = img_height rgb;
          width = img_width rgb;
          rgb1 = (if height mod 2 \<noteq> 0 then pad_row rgb else rgb);
          rgb2 = (if width mod 2 \<noteq> 0 then pad_col rgb1 else rgb1)
      in rgb2)"

definition process_frame :: "8 word \<Rightarrow> fits_data \<Rightarrow> error + img" where
  "process_frame und data =
     (case to_rgb und data of Inl e \<Rightarrow> Inl e | Inr rgb \<Rightarrow> Inr (pad_even rgb))"

text \<open>An array of shape \<open>(h, w, c)\<close>.\<close>

definition has_shape :: "nat \<Rightarrow> nat \<Rightarrow> nat \<Rightarrow> 'a list list list \<Rightarrow> bool" where
  "has_shape h w c rgb =
     (length rgb = h \<and> list_all (\<lambda>r. length r = w \<and> list_all (\<lambda>p. length p = c) r) rgb)"

subsection \<open>Per-channel normalisation, as the specification words it\<close>

text \<open>
  The specification's step 2: for each channel compute min and max over that frame and
  map \<open>v\<close> to \<open>round((v - min) / (max - min) * 255)\<close> clipped to \<open>[0, 255]\<close>; a channel whose
  min equals its max becomes all zeros. This is not taken from the source: it is what the
  source's normalisation is compared with.
\<close>

definition channel :: "nat \<Rightarrow> rat list list list \<Rightarrow> rat list" where
  "channel k a = concat (map (map (\<lambda>p. p ! k)) a)"

definition round_clip :: "rat \<Rightarrow> 8 word" where
  "round_clip q = word_of_int (max 0 (min 255 (round q)))"

definition spec_norm_sample :: "rat \<Rightarrow> rat \<Rightarrow> rat \<Rightarrow> 8 word" where
  "spec_norm_sample lo hi v = (if lo = hi then 0 else round_clip ((v - lo) / (hi - lo) * 255))"

definition spec_normalize3 :: "rat list list list \<Rightarrow> img" where
  "spec_normalize3 a =
     map (map (\<lambda>p. map (\<lambda>k. spec_norm_sample (data_min (channel k a)) (data_max (channel k a)) (p ! k))
                      [0..<length p])) a"

section \<open>fits\_to\_mp4.py: files\<close>

subsection \<open>Decimal formatting and artifact names\<close>

text \<open>
  \<^verbatim>\<open>str(n)\<close> for a natural number, and the format \<^verbatim>\<open>{i:04d}\<close>: the decimal digits, with
  zeros in front up to a width of four. A number of five digits or more is not cut.
\<close>

definition digit_char :: "nat \<Rightarrow> nat" where
  "digit_char d = of_char CHR ''0'' + d"

function str_nat :: "nat \<Rightarrow> ustr" where
  "str_nat n = (if n < 10 then [digit_char n] else str_nat (n div 10) @ [digit_char (n mod 10)])"
  by pat_completeness auto
termination
  by (relation "measure id") auto

declare str_nat.simps [simp del]

definition zfill :: "nat \<Rightarrow> ustr \<Rightarrow> ustr" where
  "zfill w s = replicate (w - length s) (of_char CHR ''0'') @ s"

definition frame_name :: "nat \<Rightarrow> ustr \<Rightarrow> ustr" where
  "frame_name i ext = asc ''frame_'' @ zfill 4 (str_nat i) @ ext"

text \<open>Reading a decimal number back, used to tell artifact names apart.\<close>

definition digit_val :: "nat \<Rightarrow> nat" where
  "digit_val c = c - of_char CHR ''0''"

definition parse_nat :: "ustr \<Rightarrow> nat" where
  "parse_nat s = foldl (\<lambda>acc c. 10 * acc + digit_val c) 0 s"

subsection \<open>Paths\<close>

text \<open>
  \<^verbatim>\<open>os.path.join\<close> of two parts: a second part that starts with a slash replaces the
  first; otherwise the parts are put together with one slash between them, which is left
  out after an empty first part and after one that ends with a slash.
  \<^verbatim>\<open>os.path.basename\<close> is what follows the last slash.
\<close>

definition path_join :: "ustr \<Rightarrow> ustr \<Rightarrow> ustr" where
  "path_join d n =
     (if n \<noteq> [] \<and> hd n = of_char CHR ''/'' then n
      else if d = [] then n
      else if last d = of_char CHR ''/'' then d @ n
      else d @ asc ''/'' @ n)"

definition basename :: "ustr \<Rightarrow> ustr" where
  "basename p = rev (takeWhile (\<lambda>c. c \<noteq> of_char CHR ''/'') (rev p))"

subsection \<open>The prefix filter (lines 33 to 39)\<close>

text \<open>
  \<^verbatim>\<open>re.match(rf'^{re.escape(args.prefix)}.*\d+\.fits$', basename)\<close>. The escaped prefix
  matches itself. After it, \<^verbatim>\<open>.*\<close> takes any characters but a newline, \<^verbatim>\<open>\d+\<close> at
  least one digit, and \<^verbatim>\<open>$\<close> stands at the end of the name or before one last newline.

  On a \<^verbatim>\<open>str\<close>, \<^verbatim>\<open>\d\<close> is any Unicode decimal digit (category Nd) of the interpreter's
  character tables, not only 0 to 9; which code points these are depends on the Unicode
  version of the interpreter, so the class is a parameter \<open>dig\<close>. The matcher tries every
  way to cut the text between the prefix and \<^verbatim>\<open>.fits\<close> into the part for \<^verbatim>\<open>.*\<close> and a part
  for \<^verbatim>\<open>\d+\<close> that is not empty.
\<close>

fun strip_prefix :: "'a list \<Rightarrow> 'a list \<Rightarrow> 'a list option" where
  "strip_prefix [] s = Some s"
| "strip_prefix (p # ps) [] = None"
| "strip_prefix (p # ps) (c # cs) = (if p = c then strip_prefix ps cs else None)"

definition strip_suffix :: "'a list \<Rightarrow> 'a list \<Rightarrow> 'a list option" where
  "strip_suffix suf s =
     (if length suf \<le> length s \<and> drop (length s - length suf) s = suf
      then Some (take (length s - length suf) s) else None)"

definition body_ok :: "(nat \<Rightarrow> bool) \<Rightarrow> ustr \<Rightarrow> bool" where
  "body_ok dig b =
     list_ex (\<lambda>k. list_all dig (drop k b) \<and> of_char (CHR 0x0A) \<notin> set (take k b))
       [0..<length b]"

definition rest_match :: "(nat \<Rightarrow> bool) \<Rightarrow> ustr \<Rightarrow> bool" where
  "rest_match dig r =
     (case strip_suffix (asc ''.fits'') r of
        Some b \<Rightarrow> body_ok dig b
      | None \<Rightarrow>
          (case strip_suffix (asc ''.fits'' @ [of_char (CHR 0x0A)]) r of
             Some b \<Rightarrow> body_ok dig b
           | None \<Rightarrow> False))"

definition prefix_match :: "(nat \<Rightarrow> bool) \<Rightarrow> ustr \<Rightarrow> ustr \<Rightarrow> bool" where
  "prefix_match dig p b =
     (case strip_prefix p b of None \<Rightarrow> False | Some r \<Rightarrow> rest_match dig r)"


subsection \<open>The staging directory\<close>

text \<open>
  What \<^verbatim>\<open>temp_frames\<close> holds: the names of its files with their contents, in the order of
  creation. Writing a file replaces one of the same name. The directory holds regular
  files only, and reading, writing and removing a file in it does not fail for reasons of
  the file system (rights, space).
\<close>

datatype content = Npy img | Image img | RawBytes "8 word list"

type_synonym files = "(ustr \<times> content) list"

definition fs_remove :: "ustr \<Rightarrow> files \<Rightarrow> files" where
  "fs_remove n fs = filter (\<lambda>e. fst e \<noteq> n) fs"

definition fs_write :: "ustr \<Rightarrow> content \<Rightarrow> files \<Rightarrow> files" where
  "fs_write n c fs = fs_remove n fs @ [(n, c)]"

definition names :: "files \<Rightarrow> ustr list" where
  "names fs = map fst fs"

text \<open>
  \<^verbatim>\<open>glob.glob(os.path.join(temp_dir, '*.ext'))\<close> inside the directory: the names that end
  with the text after the star and do not start with a dot; a pattern without a star
  names one file.
\<close>

definition ends_with :: "ustr \<Rightarrow> ustr \<Rightarrow> bool" where
  "ends_with suf n = (length suf \<le> length n \<and> drop (length n - length suf) n = suf)"

definition hidden :: "ustr \<Rightarrow> bool" where
  "hidden n = (case n of [] \<Rightarrow> False | c # _ \<Rightarrow> c = of_char CHR ''.'')"

definition glob_match :: "ustr \<Rightarrow> ustr \<Rightarrow> bool" where
  "glob_match pat n =
     (case pat of
        [] \<Rightarrow> n = []
      | c # suf \<Rightarrow> if c = of_char CHR ''*'' then ends_with suf n \<and> \<not> hidden n else n = pat)"

definition remove_glob :: "ustr \<Rightarrow> files \<Rightarrow> files" where
  "remove_glob pat fs = filter (\<lambda>e. \<not> glob_match pat (fst e)) fs"

text \<open>
  \<^verbatim>\<open>glob.has_magic\<close>: the text has one of the characters \<^verbatim>\<open>*\<close>, \<^verbatim>\<open>?\<close> and \<^verbatim>\<open>[\<close>. \<^verbatim>\<open>glob\<close> reads
  a directory part with such a character as a pattern too.
\<close>

definition has_magic :: "ustr \<Rightarrow> bool" where
  "has_magic s =
     list_ex (\<lambda>c. c = of_char CHR ''*'' \<or> c = of_char CHR ''?'' \<or> c = of_char CHR ''['') s"

text \<open>
  \<^verbatim>\<open>cv2.imwrite\<close> takes an image of one, three or four channels; for any other number it
  raises before a file is opened.
\<close>

definition imwrite :: "ustr \<Rightarrow> img \<Rightarrow> files \<Rightarrow> error + files" where
  "imwrite n bgr_data fs =
     (if img_chans bgr_data \<in> {1, 3, 4} then Inr (fs_write n (Image bgr_data) fs)
      else Inl ImwriteError)"

section \<open>fits\_to\_mp4.py: the job\<close>

subsection \<open>Arguments and the world outside\<close>

text \<open>The parsed command line (lines 13 to 19).\<close>

record args =
  directory :: ustr
  test :: bool
  bmp :: bool
  png :: bool
  prefix :: "ustr option"

text \<open>
  How a child process ends under \<^verbatim>\<open>subprocess.run\<close>: it exits with a return code, the
  timeout expires (\<^verbatim>\<open>TimeoutExpired\<close>, a \<^verbatim>\<open>SubprocessError\<close>), or the program cannot be
  started (\<^verbatim>\<open>FileNotFoundError\<close> or another \<^verbatim>\<open>OSError\<close>, which is no \<^verbatim>\<open>SubprocessError\<close>).
  Every run is taken to end.
\<close>

datatype proc = Exited int | TimedOut | LaunchFailed

text \<open>
  Everything the script reads from outside:
  the decimal digits of the interpreter's Unicode tables;
  the files \<^verbatim>\<open>glob\<close> finds in the source directory for a pattern;
  the decoder \<^verbatim>\<open>fits.getdata\<close> (\<open>None\<close> when no 2-D or 3-D array comes out of it);
  the byte the platform gives for a cast of \<^verbatim>\<open>nan\<close>;
  whether \<^verbatim>\<open>os.makedirs\<close> raises (the path is taken by a file, or may not be created);
  what \<^verbatim>\<open>temp_frames\<close> holds before the run;
  for a path of \<^verbatim>\<open>temp_frames\<close> with a glob character, whether \<^verbatim>\<open>glob\<close>, reading that path
  as a pattern, comes upon \<^verbatim>\<open>temp_frames\<close> itself;
  how the query \<^verbatim>\<open>ffmpeg -encoders\<close> ends, and its output as text (\<open>None\<close> when
  \<^verbatim>\<open>text=True\<close> cannot decode it);
  the smoke test of each encoder;
  and the end of the n-th encoding run of a command. Printing is not modelled.
\<close>

record env =
  unicode_decimal :: "nat \<Rightarrow> bool"
  glob_src :: "ustr \<Rightarrow> ustr list"
  getdata :: "ustr \<Rightarrow> fits_data option"
  nan_byte :: "8 word"
  makedirs_raises :: bool
  staged :: files
  glob_self :: bool
  encoders_query :: proc
  encoders_stdout :: "ustr option"
  smoke_test :: "ustr \<Rightarrow> proc"
  ffmpeg_encode :: "nat \<Rightarrow> ustr list \<Rightarrow> proc"

subsection \<open>Collecting the input (lines 27 to 46)\<close>

text \<open>
  \<^verbatim>\<open>if args.prefix:\<close> is false for no prefix and for the empty one. Only the branch with a
  prefix checks that a file was found and exits.
\<close>

definition collect :: "env \<Rightarrow> args \<Rightarrow> error + ustr list" where
  "collect e a =
     (case prefix a of
        None \<Rightarrow> Inr (sort (glob_src e (path_join (directory a) (asc ''*.fits''))))
      | Some p \<Rightarrow>
          if p = [] then Inr (sort (glob_src e (path_join (directory a) (asc ''*.fits''))))
          else
            (let all_files = glob_src e (path_join (directory a) (p @ asc ''*.fits''));
                 fits_files =
                   sort (filter (\<lambda>f. prefix_match (unicode_decimal e) p (basename f)) all_files)
             in if fits_files \<noteq> [] then Inr fits_files else Inl (SystemExit 1)))"

subsection \<open>Extraction (lines 60 to 97)\<close>

text \<open>
  \<^verbatim>\<open>cv2.cvtColor(rgb, cv2.COLOR_RGB2BGR)\<close> when the array has three channels: the channels
  of every pixel in reverse order.
\<close>

definition to_bgr :: "img \<Rightarrow> img" where
  "to_bgr rgb = (if img_chans rgb = 3 then map (map rev) rgb else rgb)"

text \<open>Lines 87 to 97: \<^verbatim>\<open>cv2.imwrite\<close> for BMP and PNG, \<^verbatim>\<open>np.save\<close> otherwise.\<close>

definition save_frame :: "args \<Rightarrow> nat \<Rightarrow> img \<Rightarrow> files \<Rightarrow> error + files" where
  "save_frame a i rgb fs =
     (if bmp a then imwrite (frame_name i (asc ''.bmp'')) (to_bgr rgb) fs
      else if png a then imwrite (frame_name i (asc ''.png'')) (to_bgr rgb) fs
      else Inr (fs_write (frame_name i (asc ''.npy'')) (Npy rgb) fs))"

text \<open>
  The loop \<^verbatim>\<open>for i, f in enumerate(fits_files)\<close>, from index \<open>i\<close> on. An exception leaves
  the loop with the files written so far.
\<close>

fun extract_frames :: "env \<Rightarrow> args \<Rightarrow> nat \<Rightarrow> ustr list \<Rightarrow> files \<Rightarrow> (error + unit) \<times> files" where
  "extract_frames e a i [] fs = (Inr (), fs)"
| "extract_frames e a i (f # rest) fs =
     (case getdata e f of
        None \<Rightarrow> (Inl DecodeError, fs)
      | Some data \<Rightarrow>
          (case process_frame (nan_byte e) data of
             Inl er \<Rightarrow> (Inl er, fs)
           | Inr rgb \<Rightarrow>
               (case save_frame a i rgb fs of
                  Inl er \<Rightarrow> (Inl er, fs)
                | Inr fs1 \<Rightarrow> extract_frames e a (Suc i) rest fs1)))"

subsection \<open>Choosing the encoder (lines 99 to 149)\<close>

definition encoders_to_try :: "(ustr \<times> ustr) list" where
  "encoders_to_try =
     [(asc ''h264_vaapi'', asc ''VAAPI (GPU)''),
      (asc ''h264_amf'', asc ''AMD AMF''),
      (asc ''h264_nvenc'', asc ''NVIDIA NVENC''),
      (asc ''h264_videotoolbox'', asc ''macOS VideoToolbox'')]"

definition cpu_encoder :: "ustr \<times> ustr" where
  "cpu_encoder = (asc ''libx264'', asc ''CPU (software)'')"

text \<open>\<^verbatim>\<open>encoder in available_encoders\<close>: the text occurs somewhere in the output.\<close>

fun occurs_in :: "ustr \<Rightarrow> ustr \<Rightarrow> bool" where
  "occurs_in s [] = (s = [])"
| "occurs_in s (c # cs) = (strip_prefix s (c # cs) \<noteq> None \<or> occurs_in s cs)"

text \<open>
  \<^verbatim>\<open>test_encoder\<close>: true when the test run exits with 0; a \<^verbatim>\<open>SubprocessError\<close> is caught
  and gives false; an \<^verbatim>\<open>OSError\<close> is not caught.
\<close>

definition test_encoder :: "env \<Rightarrow> ustr \<Rightarrow> error + bool" where
  "test_encoder e encoder =
     (case smoke_test e encoder of
        Exited rc \<Rightarrow> Inr (rc = 0)
      | TimedOut \<Rightarrow> Inr False
      | LaunchFailed \<Rightarrow> Inl OSError)"

text \<open>
  The loop over \<^verbatim>\<open>encoders_to_try\<close>. The second component lists the encoders whose smoke
  test was run, in order.
\<close>

fun try_encoders ::
  "env \<Rightarrow> ustr \<Rightarrow> (ustr \<times> ustr) list \<Rightarrow> ustr list \<Rightarrow> (error + ustr \<times> ustr) \<times> ustr list" where
  "try_encoders e available_encoders [] tested = (Inr cpu_encoder, tested)"
| "try_encoders e available_encoders ((encoder, description) # rest) tested =
     (if occurs_in encoder available_encoders
      then (case test_encoder e encoder of
              Inl er \<Rightarrow> (Inl er, tested @ [encoder])
            | Inr ok \<Rightarrow>
                if ok then (Inr (encoder, description), tested @ [encoder])
                else try_encoders e available_encoders rest (tested @ [encoder]))
      else try_encoders e available_encoders rest tested)"

text \<open>
  \<^verbatim>\<open>check_gpu_encoders\<close>. The query is run with \<^verbatim>\<open>text=True\<close>: when it ends, its output is
  decoded, and \<^verbatim>\<open>UnicodeDecodeError\<close> is a \<^verbatim>\<open>ValueError\<close>, which the \<^verbatim>\<open>except\<close> clause does
  not name.
\<close>

definition check_gpu_encoders :: "env \<Rightarrow> bool \<Rightarrow> (error + ustr \<times> ustr) \<times> ustr list" where
  "check_gpu_encoders e test_encoders =
     (case encoders_query e of
        TimedOut \<Rightarrow> (Inr cpu_encoder, [])
      | LaunchFailed \<Rightarrow> (Inl OSError, [])
      | Exited rc \<Rightarrow>
          (case encoders_stdout e of
             None \<Rightarrow> (Inl UnicodeDecodeError, [])
           | Some available_encoders \<Rightarrow>
               if \<not> test_encoders then (Inr cpu_encoder, [])
               else try_encoders e available_encoders encoders_to_try []))"

subsection \<open>Building the encoding command (lines 152 to 241)\<close>

text \<open>
  What the later steps read: the command, the glob pattern of the per-frame files, and
  the variables that exist only on some paths: \<^verbatim>\<open>input_pattern\<close> (image sequences), and
  \<^verbatim>\<open>width\<close>, \<^verbatim>\<open>height\<close> and \<^verbatim>\<open>raw_temp_file\<close> (raw stream).
\<close>

record plan =
  ffmpeg_cmd :: "ustr list"
  file_extension :: ustr
  input_pattern :: "ustr option"
  raw_input :: "(nat \<times> nat \<times> ustr) option"

definition temp_dir :: "args \<Rightarrow> ustr" where
  "temp_dir a = path_join (directory a) (asc ''temp_frames'')"

definition output_file :: "args \<Rightarrow> ustr" where
  "output_file a = path_join (directory a) (asc ''animation.mp4'')"

text \<open>\<^verbatim>\<open>np.load\<close> of the frame with index \<open>i\<close>.\<close>

definition load_npy :: "files \<Rightarrow> nat \<Rightarrow> error + img" where
  "load_npy fs i =
     (case map_of fs (frame_name i (asc ''.npy'')) of
        None \<Rightarrow> Inl FileNotFoundError
      | Some c \<Rightarrow> (case c of Npy frame_data \<Rightarrow> Inr frame_data | _ \<Rightarrow> Inl ValueError))"

text \<open>Lines 169 to 173: every raw frame is written once more as a BMP.\<close>

fun convert_to_bmp :: "nat list \<Rightarrow> files \<Rightarrow> (error + unit) \<times> files" where
  "convert_to_bmp [] fs = (Inr (), fs)"
| "convert_to_bmp (i # rest) fs =
     (case load_npy fs i of
        Inl er \<Rightarrow> (Inl er, fs)
      | Inr frame_data \<Rightarrow>
          (case imwrite (frame_name i (asc ''.bmp'')) (to_bgr frame_data) fs of
             Inl er \<Rightarrow> (Inl er, fs)
           | Inr fs1 \<Rightarrow> convert_to_bmp rest fs1))"

text \<open>Lines 187 to 190: the raw frames are loaded into a list.\<close>

fun load_all :: "nat list \<Rightarrow> files \<Rightarrow> error + img list" where
  "load_all [] fs = Inr []"
| "load_all (i # rest) fs =
     (case load_npy fs i of
        Inl er \<Rightarrow> Inl er
      | Inr frame_data \<Rightarrow>
          (case load_all rest fs of Inl er \<Rightarrow> Inl er | Inr others \<Rightarrow> Inr (frame_data # others)))"

text \<open>\<^verbatim>\<open>frame.tobytes()\<close> of an 8-bit array: its samples in row-major order.\<close>

definition tobytes :: "img \<Rightarrow> 8 word list" where
  "tobytes frame = concat (concat frame)"

text \<open>
  Lines 192 to 213. The raw file is written before the first frame is looked at;
  \<^verbatim>\<open>raw_frames[0]\<close> raises IndexError on an empty list.
\<close>

definition raw_pipeline :: "args \<Rightarrow> ustr \<Rightarrow> img list \<Rightarrow> files \<Rightarrow> (error + plan) \<times> files" where
  "raw_pipeline a encoder raw_frames fs =
     (let raw_temp_file = path_join (temp_dir a) (asc ''raw_frames.rgb'');
          fs1 = fs_write (asc ''raw_frames.rgb'') (RawBytes (concat (map tobytes raw_frames))) fs
      in case raw_frames of
           [] \<Rightarrow> (Inl IndexError, fs1)
         | first # _ \<Rightarrow>
             (let height = img_height first;
                  width = img_width first;
                  base_cmd =
                    [asc ''ffmpeg'', asc ''-y'', asc ''-f'', asc ''rawvideo'',
                     asc ''-vcodec'', asc ''rawvideo'',
                     asc ''-s'', str_nat width @ asc ''x'' @ str_nat height,
                     asc ''-pix_fmt'', asc ''rgb24'',
                     asc ''-r'', asc ''60'', asc ''-i'', raw_temp_file];
                  cmd =
                    (if encoder = asc ''libx264''
                     then base_cmd @ [asc ''-c:v'', encoder, asc ''-pix_fmt'', asc ''yuv420p'',
                                      asc ''-crf'', asc ''23'', output_file a]
                     else base_cmd @ [asc ''-c:v'', encoder, asc ''-pix_fmt'', asc ''yuv420p'',
                                      asc ''-b:v'', asc ''8M'', output_file a])
              in (Inr \<lparr>ffmpeg_cmd = cmd, file_extension = asc ''*.npy'', input_pattern = None,
                       raw_input = Some (width, height, raw_temp_file)\<rparr>, fs1)))"

text \<open>Lines 216 to 241: the command for an image sequence.\<close>

definition image_cmd :: "args \<Rightarrow> ustr \<Rightarrow> ustr \<Rightarrow> ustr list" where
  "image_cmd a encoder pattern =
     (if encoder = asc ''libx264''
      then [asc ''ffmpeg'', asc ''-y'', asc ''-framerate'', asc ''60'', asc ''-i'', pattern,
            asc ''-c:v'', encoder, asc ''-pix_fmt'', asc ''yuv420p'', asc ''-crf'', asc ''23'',
            output_file a]
      else if encoder = asc ''h264_vaapi''
      then [asc ''ffmpeg'', asc ''-y'', asc ''-framerate'', asc ''60'',
            asc ''-hwaccel'', asc ''vaapi'', asc ''-hwaccel_output_format'', asc ''vaapi'',
            asc ''-i'', pattern,
            asc ''-c:v'', asc ''h264_vaapi'', asc ''-b:v'', asc ''8M'', output_file a]
      else [asc ''ffmpeg'', asc ''-y'', asc ''-framerate'', asc ''60'', asc ''-i'', pattern,
            asc ''-c:v'', encoder, asc ''-pix_fmt'', asc ''yuv420p'', asc ''-b:v'', asc ''8M'',
            output_file a])"

definition build :: "args \<Rightarrow> ustr \<Rightarrow> nat \<Rightarrow> files \<Rightarrow> (error + plan) \<times> files" where
  "build a encoder n fs =
     (if bmp a
      then (Inr \<lparr>ffmpeg_cmd = image_cmd a encoder (path_join (temp_dir a) (asc ''frame_%04d.bmp'')),
                 file_extension = asc ''*.bmp'',
                 input_pattern = Some (path_join (temp_dir a) (asc ''frame_%04d.bmp'')),
                 raw_input = None\<rparr>, fs)
      else if png a
      then (Inr \<lparr>ffmpeg_cmd = image_cmd a encoder (path_join (temp_dir a) (asc ''frame_%04d.png'')),
                 file_extension = asc ''*.png'',
                 input_pattern = Some (path_join (temp_dir a) (asc ''frame_%04d.png'')),
                 raw_input = None\<rparr>, fs)
      else if encoder = asc ''h264_vaapi''
      then (case convert_to_bmp [0..<n] fs of
              (r, fs1) \<Rightarrow>
                (case r of
                   Inl er \<Rightarrow> (Inl er, fs1)
                 | Inr u \<Rightarrow>
                     (Inr \<lparr>ffmpeg_cmd =
                             [asc ''ffmpeg'', asc ''-y'', asc ''-framerate'', asc ''60'',
                              asc ''-i'', path_join (temp_dir a) (asc ''frame_%04d.bmp''),
                              asc ''-c:v'', asc ''h264_vaapi'', asc ''-b:v'', asc ''8M'',
                              output_file a],
                           file_extension = asc ''*.npy'',
                           input_pattern = Some (path_join (temp_dir a) (asc ''frame_%04d.bmp'')),
                           raw_input = None\<rparr>, fs1)))
      else (case load_all [0..<n] fs of
              Inl er \<Rightarrow> (Inl er, fs)
            | Inr raw_frames \<Rightarrow> raw_pipeline a encoder raw_frames fs))"

subsection \<open>Encoding with one fallback (lines 243 to 274)\<close>

text \<open>
  \<^verbatim>\<open>subprocess.run(cmd, check=True)\<close>: a return code other than 0 raises
  \<^verbatim>\<open>CalledProcessError\<close> with the code and the command. \<open>k\<close> counts the runs of the job.
\<close>

definition run_checked :: "env \<Rightarrow> nat \<Rightarrow> ustr list \<Rightarrow> error + unit" where
  "run_checked e k cmd =
     (case ffmpeg_encode e k cmd of
        Exited rc \<Rightarrow> if rc = 0 then Inr () else Inl (CalledProcessError rc cmd)
      | TimedOut \<Rightarrow> Inl TimeoutExpired
      | LaunchFailed \<Rightarrow> Inl OSError)"

text \<open>The fallback command; a variable that the path taken never set raises NameError.\<close>

definition fallback_cmd :: "args \<Rightarrow> ustr \<Rightarrow> plan \<Rightarrow> error + ustr list" where
  "fallback_cmd a encoder pl =
     (if bmp a \<or> png a \<or> encoder = asc ''h264_vaapi''
      then (case (if encoder = asc ''h264_vaapi''
                  then Some (path_join (temp_dir a) (asc ''frame_%04d.bmp''))
                  else input_pattern pl) of
              None \<Rightarrow> Inl NameError
            | Some fallback_input \<Rightarrow>
                Inr [asc ''ffmpeg'', asc ''-y'', asc ''-framerate'', asc ''60'',
                     asc ''-i'', fallback_input,
                     asc ''-c:v'', asc ''libx264'', asc ''-pix_fmt'', asc ''yuv420p'',
                     asc ''-crf'', asc ''23'', output_file a])
      else (case raw_input pl of
              None \<Rightarrow> Inl NameError
            | Some (width, height, raw_temp_file) \<Rightarrow>
                Inr [asc ''ffmpeg'', asc ''-y'', asc ''-f'', asc ''rawvideo'',
                     asc ''-vcodec'', asc ''rawvideo'',
                     asc ''-s'', str_nat width @ asc ''x'' @ str_nat height,
                     asc ''-pix_fmt'', asc ''rgb24'',
                     asc ''-r'', asc ''60'', asc ''-i'', raw_temp_file,
                     asc ''-c:v'', asc ''libx264'', asc ''-pix_fmt'', asc ''yuv420p'',
                     asc ''-crf'', asc ''23'', output_file a]))"

text \<open>
  The try block. Only \<^verbatim>\<open>CalledProcessError\<close> is caught. The second component lists the
  commands that were run, in order.
\<close>

definition run_with_fallback ::
  "env \<Rightarrow> args \<Rightarrow> ustr \<Rightarrow> plan \<Rightarrow> (error + unit) \<times> ustr list list" where
  "run_with_fallback e a encoder pl =
     (case run_checked e 0 (ffmpeg_cmd pl) of
        Inr u \<Rightarrow> (Inr (), [ffmpeg_cmd pl])
      | Inl er \<Rightarrow>
          (case er of
             CalledProcessError rc c \<Rightarrow>
               if encoder \<noteq> asc ''libx264''
               then (case fallback_cmd a encoder pl of
                       Inl er2 \<Rightarrow> (Inl er2, [ffmpeg_cmd pl])
                     | Inr fc \<Rightarrow> (run_checked e 1 fc, [ffmpeg_cmd pl, fc]))
               else (Inl (CalledProcessError rc c), [ffmpeg_cmd pl])
           | _ \<Rightarrow> (Inl er, [ffmpeg_cmd pl])))"

subsection \<open>Cleaning up (lines 276 to 293)\<close>

text \<open>
  \<^verbatim>\<open>glob.glob(os.path.join(temp_dir, pattern))\<close> followed by \<^verbatim>\<open>os.remove\<close> of what it
  found. When the path of \<^verbatim>\<open>temp_frames\<close> has no glob character, \<^verbatim>\<open>glob\<close> lists that
  directory. When it has one, \<^verbatim>\<open>glob\<close> lists the directories that the path matches as a
  pattern: the files of \<^verbatim>\<open>temp_frames\<close> are found only when \<^verbatim>\<open>temp_frames\<close> is among them.
  (Files that the pattern reaches in other directories are removed too; they are not part
  of this state.)
\<close>

definition glob_remove :: "env \<Rightarrow> args \<Rightarrow> ustr \<Rightarrow> files \<Rightarrow> files" where
  "glob_remove e a pat fs =
     (if has_magic (temp_dir a) \<and> \<not> glob_self e then fs else remove_glob pat fs)"

text \<open>
  The three removals, then \<^verbatim>\<open>os.rmdir\<close>, which raises OSError on a directory that still
  holds a file. The raw file is removed by its own path, without \<^verbatim>\<open>glob\<close>. The result is
  the outcome, the files left, and whether the directory is still there.
\<close>

definition cleanup ::
  "env \<Rightarrow> args \<Rightarrow> ustr \<Rightarrow> plan \<Rightarrow> files \<Rightarrow> (error + unit) \<times> files \<times> bool" where
  "cleanup e a encoder pl fs =
     (let fs1 = glob_remove e a (file_extension pl) fs;
          fs2 = (if \<not> bmp a \<and> encoder = asc ''h264_vaapi''
                 then glob_remove e a (asc ''*.bmp'') fs1 else fs1);
          fs3 = (if \<not> (bmp a \<or> png a) \<and> encoder \<noteq> asc ''h264_vaapi''
                 then (if asc ''raw_frames.rgb'' \<in> set (names fs2)
                       then fs_remove (asc ''raw_frames.rgb'') fs2 else fs2)
                 else fs2)
      in if fs3 = [] then (Inr (), [], False) else (Inl OSError, fs3, True))"

subsection \<open>The whole script\<close>

text \<open>
  What a run leaves behind: how it ended, what the staging directory holds, whether the
  directory exists, the encoding commands that were run and the encoders that were smoke
  tested. The script has no \<^verbatim>\<open>try ... finally\<close>: an exception ends it where it is raised.
\<close>

record result =
  outcome :: "error + unit"
  left_files :: files
  dir_exists :: bool
  attempts :: "ustr list list"
  smoke_tested :: "ustr list"

definition failed :: "error \<Rightarrow> files \<Rightarrow> ustr list list \<Rightarrow> ustr list \<Rightarrow> result" where
  "failed er fs cmds tested =
     \<lparr>outcome = Inl er, left_files = fs, dir_exists = True, attempts = cmds,
      smoke_tested = tested\<rparr>"

text \<open>Lines 243 to 293: the encoding, and the cleanup when the encoding did not raise.\<close>

definition encode_and_clean ::
  "env \<Rightarrow> args \<Rightarrow> ustr \<Rightarrow> plan \<Rightarrow> files \<Rightarrow> ustr list \<Rightarrow> result" where
  "encode_and_clean e a encoder pl fs tested =
     (case run_with_fallback e a encoder pl of
        (r, cmds) \<Rightarrow>
          (case r of
             Inl er \<Rightarrow> failed er fs cmds tested
           | Inr u \<Rightarrow>
               (case cleanup e a encoder pl fs of
                  (r5, fs3, d) \<Rightarrow>
                    \<lparr>outcome = r5, left_files = fs3, dir_exists = d, attempts = cmds,
                     smoke_tested = tested\<rparr>)))"

text \<open>Lines 152 to 293: encoder choice, command, encoding, cleanup.\<close>

definition encode_stage :: "env \<Rightarrow> args \<Rightarrow> ustr list \<Rightarrow> files \<Rightarrow> result" where
  "encode_stage e a fits_files fs =
     (case check_gpu_encoders e (test a) of
        (r2, tested) \<Rightarrow>
          (case r2 of
             Inl er \<Rightarrow> failed er fs [] tested
           | Inr sel \<Rightarrow>
               (case build a (fst sel) (length fits_files) fs of
                  (r3, fs2) \<Rightarrow>
                    (case r3 of
                       Inl er \<Rightarrow> failed er fs2 [] tested
                     | Inr pl \<Rightarrow> encode_and_clean e a (fst sel) pl fs2 tested))))"

text \<open>
  The script from line 22 on. \<^verbatim>\<open>os.makedirs(temp_dir, exist_ok=True)\<close> comes first: when
  it raises, the script ends there without the directory; otherwise the directory exists
  from then on, with what it held before.
\<close>

definition job :: "env \<Rightarrow> args \<Rightarrow> result" where
  "job e a =
     (if makedirs_raises e
      then \<lparr>outcome = Inl OSError, left_files = [], dir_exists = False, attempts = [],
            smoke_tested = []\<rparr>
      else
        (case collect e a of
           Inl er \<Rightarrow> failed er (staged e) [] []
         | Inr fits_files \<Rightarrow>
             (case extract_frames e a 0 fits_files (staged e) of
                (r1, fs1) \<Rightarrow>
                  (case r1 of
                     Inl er \<Rightarrow> failed er fs1 [] []
                   | Inr u \<Rightarrow> encode_stage e a fits_files fs1))))"

subsection \<open>Reading a command\<close>

text \<open>The encoder a command names: the word after \<^verbatim>\<open>-c:v\<close>.\<close>

fun codec_of :: "ustr list \<Rightarrow> ustr option" where
  "codec_of [] = None"
| "codec_of [w] = None"
| "codec_of (w # v # ws) = (if w = asc ''-c:v'' then Some v else codec_of (v # ws))"


subsection \<open>Plans that the script builds\<close>

text \<open>
  What every plan returned by \<open>build\<close> satisfies: its command names the chosen encoder, and
  the variables the fallback reads on its path are set.
\<close>

definition built :: "args \<Rightarrow> ustr \<Rightarrow> plan \<Rightarrow> bool" where
  "built a encoder pl =
     (codec_of (ffmpeg_cmd pl) = Some encoder
      \<and> (if bmp a then input_pattern pl = Some (path_join (temp_dir a) (asc ''frame_%04d.bmp''))
          else if png a then input_pattern pl = Some (path_join (temp_dir a) (asc ''frame_%04d.png''))
          else if encoder = asc ''h264_vaapi''
          then input_pattern pl = Some (path_join (temp_dir a) (asc ''frame_%04d.bmp''))
          else (\<exists>w h. raw_input pl = Some (w, h, path_join (temp_dir a) (asc ''raw_frames.rgb'')))))"

subsection \<open>What extraction writes\<close>

text \<open>
  The extension and the stored form that \<open>save_frame\<close> uses for the chosen format; the
  frame that a source file decodes to (\<open>None\<close> when reading or normalising raises);
  whether a frame can be written in the chosen format (\<^verbatim>\<open>np.save\<close> takes any array,
  \<^verbatim>\<open>cv2.imwrite\<close> one, three or four channels); the artifacts of a list of frames, numbered
  from 0; and the decimal form of a number with exactly \<open>k\<close> digits, used to compare names.
\<close>

definition frame_ext :: "args \<Rightarrow> ustr" where
  "frame_ext a = (if bmp a then asc ''.bmp'' else if png a then asc ''.png'' else asc ''.npy'')"

definition frame_content :: "args \<Rightarrow> img \<Rightarrow> content" where
  "frame_content a rgb = (if bmp a \<or> png a then Image (to_bgr rgb) else Npy rgb)"

definition decoded :: "env \<Rightarrow> ustr \<Rightarrow> img option" where
  "decoded e f =
     (case getdata e f of
        None \<Rightarrow> None
      | Some data \<Rightarrow> (case process_frame (nan_byte e) data of Inl er \<Rightarrow> None | Inr rgb \<Rightarrow> Some rgb))"

definition writable :: "args \<Rightarrow> img \<Rightarrow> bool" where
  "writable a rgb = (if bmp a \<or> png a then img_chans rgb \<in> {1, 3, 4} else True)"

definition artifacts :: "args \<Rightarrow> img list \<Rightarrow> files" where
  "artifacts a frames =
     map (\<lambda>(k, rgb). (frame_name k (frame_ext a), frame_content a rgb)) (List.enumerate 0 frames)"

definition artifact_names :: "args \<Rightarrow> nat \<Rightarrow> ustr list" where
  "artifact_names a n = map (\<lambda>k. frame_name k (frame_ext a)) [0..<n]"

fun fixed_width :: "nat \<Rightarrow> nat \<Rightarrow> ustr" where
  "fixed_width 0 n = []"
| "fixed_width (Suc k) n = fixed_width k (n div 10) @ [digit_char (n mod 10)]"

subsection \<open>A directory without input\<close>

text \<open>
  Three blocks of decimal digits that every Unicode version has: 0 to 9, the Arabic-Indic
  digits (U+0660 to U+0669) and the fullwidth digits (U+FF10 to U+FF19). The environments
  below use them as the interpreter's table.
\<close>

definition three_digit_blocks :: "nat \<Rightarrow> bool" where
  "three_digit_blocks c =
     (48 \<le> c \<and> c \<le> 57 \<or> 1632 \<le> c \<and> c \<le> 1641 \<or> 65296 \<le> c \<and> c \<le> 65305)"

text \<open>
  A source directory in which \<^verbatim>\<open>glob\<close> finds no file, an empty staging directory, and an
  \<^verbatim>\<open>ffmpeg\<close> that starts and exits with code 1 when it encodes; and the default command
  line.
\<close>

definition empty_dir_env :: env where
  "empty_dir_env =
     \<lparr>unicode_decimal = three_digit_blocks,
      glob_src = (\<lambda>pat. []), getdata = (\<lambda>f. None), nan_byte = 0,
      makedirs_raises = False, staged = [], glob_self = True,
      encoders_query = Exited 0, encoders_stdout = Some [], smoke_test = (\<lambda>encoder. Exited 1),
      ffmpeg_encode = (\<lambda>k cmd. Exited 1)\<rparr>"

definition default_args :: args where
  "default_args =
     \<lparr>directory = asc ''.'', test = False, bmp = False, png = False, prefix = None\<rparr>"

subsection \<open>A directory with two exposures\<close>

text \<open>
  A source directory with two grey 2-by-2 exposures, an empty staging directory, and an
  \<^verbatim>\<open>ffmpeg\<close> that starts and encodes with exit code 0; the same with an \<^verbatim>\<open>ffmpeg\<close> that
  exits with code 1 when it encodes.
\<close>

definition two_frames_env :: env where
  "two_frames_env =
     \<lparr>unicode_decimal = three_digit_blocks,
      glob_src = (\<lambda>pat. [asc ''./b.fits'', asc ''./a.fits'']),
      getdata = (\<lambda>f. if f = asc ''./a.fits'' then Some (D2 [[0, 1], [2, 4]])
                      else if f = asc ''./b.fits'' then Some (D2 [[4, 0], [2, 1]])
                      else None),
      nan_byte = 0, makedirs_raises = False, staged = [], glob_self = True,
      encoders_query = Exited 0, encoders_stdout = Some [], smoke_test = (\<lambda>encoder. Exited 1),
      ffmpeg_encode = (\<lambda>k cmd. Exited 0)\<rparr>"


definition frame_a :: img where
  "frame_a = [[[0, 0, 0], [63, 63, 63]], [[127, 127, 127], [255, 255, 255]]]"

definition frame_b :: img where
  "frame_b = [[[255, 255, 255], [0, 0, 0]], [[127, 127, 127], [63, 63, 63]]]"



text \<open>
  A staging directory that an earlier run left behind: a raw frame under the name of
  index 1 and a file of another kind.
\<close>

definition stale_files :: files where
  "stale_files = [(asc ''frame_0001.npy'', RawBytes []), (asc ''notes.txt'', RawBytes [])]"



subsection \<open>A working hardware encoder\<close>

text \<open>
  The two exposures again, with \<^verbatim>\<open>--test --bmp\<close>: \<^verbatim>\<open>ffmpeg -encoders\<close> lists
  \<^verbatim>\<open>h264_nvenc\<close>, every smoke test passes, the first encoding run exits with code 1 and
  every later one with code 0. Then the same with a staging directory in which an earlier
  run in raw mode left \<^verbatim>\<open>frame_0000.npy\<close>. And what such a job stages and runs: the two
  BMP frames, the plan for \<^verbatim>\<open>h264_nvenc\<close>, the fallback command.
\<close>

definition nvenc_args :: args where
  "nvenc_args = default_args\<lparr>test := True, bmp := True\<rparr>"

definition nvenc_env :: env where
  "nvenc_env =
     two_frames_env
       \<lparr>encoders_stdout := Some (asc '' V....D h264_nvenc  NVIDIA NVENC H.264 encoder''),
        smoke_test := (\<lambda>encoder. Exited 0),
        ffmpeg_encode := (\<lambda>k cmd. if k = 0 then Exited 1 else Exited 0)\<rparr>"

definition stale_env :: env where
  "stale_env = nvenc_env\<lparr>staged := [(asc ''frame_0000.npy'', Npy frame_a)]\<rparr>"

definition staged_bmp :: files where
  "staged_bmp = [(asc ''frame_0000.bmp'', Image frame_a), (asc ''frame_0001.bmp'', Image frame_b)]"

definition nvenc_plan :: plan where
  "nvenc_plan =
     \<lparr>ffmpeg_cmd =
        [asc ''ffmpeg'', asc ''-y'', asc ''-framerate'', asc ''60'',
         asc ''-i'', asc ''./temp_frames/frame_%04d.bmp'',
         asc ''-c:v'', asc ''h264_nvenc'', asc ''-pix_fmt'', asc ''yuv420p'', asc ''-b:v'', asc ''8M'',
         asc ''./animation.mp4''],
      file_extension = asc ''*.bmp'',
      input_pattern = Some (asc ''./temp_frames/frame_%04d.bmp''),
      raw_input = None\<rparr>"

definition libx264_bmp_cmd :: "ustr list" where
  "libx264_bmp_cmd =
     [asc ''ffmpeg'', asc ''-y'', asc ''-framerate'', asc ''60'',
      asc ''-i'', asc ''./temp_frames/frame_%04d.bmp'',
      asc ''-c:v'', asc ''libx264'', asc ''-pix_fmt'', asc ''yuv420p'', asc ''-crf'', asc ''23'',
      asc ''./animation.mp4'']"

subsection \<open>A directory of numbered files\<close>




section \<open>Properties of the frame pipeline\<close>

subsection \<open>Padding\<close>

lemma has_shape_width: "has_shape h w c rgb \<Longrightarrow> 0 < h \<Longrightarrow> img_width rgb = w"
  by (cases rgb) (auto simp: has_shape_def img_width_def)

lemma has_shape_chans: "has_shape h w c rgb \<Longrightarrow> 0 < h \<Longrightarrow> 0 < w \<Longrightarrow> img_chans rgb = c"
  by (cases rgb; cases "hd rgb") (auto simp: has_shape_def img_chans_def)

lemma has_shape_pad_row:
  "has_shape h w c rgb \<Longrightarrow> 0 < h \<Longrightarrow> 0 < w \<Longrightarrow> has_shape (Suc h) w c (pad_row rgb)"
  using has_shape_width[of h w c rgb] has_shape_chans[of h w c rgb]
  by (auto simp add: pad_row_def has_shape_def list_all_iff)

lemma has_shape_pad_col:
  "has_shape h w c rgb \<Longrightarrow> 0 < h \<Longrightarrow> 0 < w \<Longrightarrow> has_shape h (Suc w) c (pad_col rgb)"
  using has_shape_chans[of h w c rgb]
  by (auto simp add: pad_col_def has_shape_def list_all_iff)

lemma pad_row_nth_old: "i < length rgb \<Longrightarrow> pad_row rgb ! i = rgb ! i"
  by (simp add: pad_row_def nth_append)

lemma pad_row_nth_new:
  "has_shape h w c rgb \<Longrightarrow> 0 < h \<Longrightarrow> 0 < w \<Longrightarrow> j < w \<Longrightarrow> pad_row rgb ! h ! j = replicate c 0"
  using has_shape_width[of h w c rgb] has_shape_chans[of h w c rgb]
  by (simp add: pad_row_def has_shape_def nth_append)

lemma pad_col_nth_old:
  "has_shape h w c rgb \<Longrightarrow> i < h \<Longrightarrow> j < w \<Longrightarrow> pad_col rgb ! i ! j = rgb ! i ! j"
  by (simp add: pad_col_def has_shape_def nth_append list_all_length)

lemma pad_col_nth_new:
  "has_shape h w c rgb \<Longrightarrow> 0 < w \<Longrightarrow> i < h \<Longrightarrow> pad_col rgb ! i ! w = replicate c 0"
  using has_shape_chans[of h w c rgb]
  by (simp add: pad_col_def has_shape_def nth_append list_all_length)

lemma pad_even_cases:
  "pad_even rgb =
     (if odd (length rgb)
      then (if odd (img_width rgb) then pad_col (pad_row rgb) else pad_row rgb)
      else (if odd (img_width rgb) then pad_col rgb else rgb))"
  by (simp add: pad_even_def img_height_def Let_def odd_iff_mod_2_eq_one)

text \<open>
  C9. Padding, for a frame of shape \<open>(h, w, c)\<close> with at least one pixel: the result has
  height \<open>h + 1\<close> when \<open>h\<close> is odd and \<open>h\<close> otherwise, width \<open>w + 1\<close> when \<open>w\<close> is odd and
  \<open>w\<close> otherwise; every pixel of the frame stays where it was; the one added row and the
  one added column hold zero pixels only; a frame with even height and even width is
  returned as it is.
\<close>

theorem pad_even_spec:
  "has_shape h w c rgb \<Longrightarrow> 0 < h \<Longrightarrow> 0 < w \<Longrightarrow>
     has_shape (if odd h then h + 1 else h) (if odd w then w + 1 else w) c (pad_even rgb)
   \<and> (\<forall>i<h. \<forall>j<w. pad_even rgb ! i ! j = rgb ! i ! j)
   \<and> (odd h \<longrightarrow> (\<forall>j<(if odd w then w + 1 else w). pad_even rgb ! h ! j = replicate c 0))
   \<and> (odd w \<longrightarrow> (\<forall>i<(if odd h then h + 1 else h). pad_even rgb ! i ! w = replicate c 0))
   \<and> (even h \<and> even w \<longrightarrow> pad_even rgb = rgb)"
proof -
  assume s: "has_shape h w c rgb" and h: "0 < h" and w: "0 < w"
  have len: "length rgb = h" using s by (simp add: has_shape_def)
  have wd: "img_width rgb = w" by (rule has_shape_width[OF s h])
  have sr: "has_shape (Suc h) w c (pad_row rgb)" by (rule has_shape_pad_row[OF s h w])
  have sc: "has_shape h (Suc w) c (pad_col rgb)" by (rule has_shape_pad_col[OF s h w])
  have src: "has_shape (Suc h) (Suc w) c (pad_col (pad_row rgb))"
    by (rule has_shape_pad_col[OF sr _ w]) simp
  have ro: "\<And>i. i < h \<Longrightarrow> pad_row rgb ! i = rgb ! i"
    using pad_row_nth_old[of _ rgb] len by simp
  have rn: "\<And>j. j < w \<Longrightarrow> pad_row rgb ! h ! j = replicate c 0"
    by (rule pad_row_nth_new[OF s h w])
  have co: "\<And>i j. i < h \<Longrightarrow> j < w \<Longrightarrow> pad_col rgb ! i ! j = rgb ! i ! j"
    by (rule pad_col_nth_old[OF s])
  have cn: "\<And>i. i < h \<Longrightarrow> pad_col rgb ! i ! w = replicate c 0"
    by (rule pad_col_nth_new[OF s w])
  have rco: "\<And>i j. i < Suc h \<Longrightarrow> j < w \<Longrightarrow> pad_col (pad_row rgb) ! i ! j = pad_row rgb ! i ! j"
    by (rule pad_col_nth_old[OF sr])
  have rcn: "\<And>i. i < Suc h \<Longrightarrow> pad_col (pad_row rgb) ! i ! w = replicate c 0"
    by (rule pad_col_nth_new[OF sr w])
  show ?thesis
  proof (cases "odd h")
    case oh: True
    show ?thesis
    proof (cases "odd w")
      case True
      then show ?thesis
        using oh src ro rn rco rcn by (auto simp: pad_even_cases len wd less_Suc_eq)
    next
      case False
      then show ?thesis
        using oh sr ro rn by (auto simp: pad_even_cases len wd)
    qed
  next
    case eh: False
    show ?thesis
    proof (cases "odd w")
      case True
      then show ?thesis
        using eh sc co cn by (auto simp: pad_even_cases len wd)
    next
      case False
      then show ?thesis
        using eh s by (auto simp: pad_even_cases len wd)
    qed
  qed
qed

theorem pad_even_spec_witness:
  "has_shape 1 1 3 [[[1, 2, 3 :: 8 word]]]
   \<and> has_shape 2 2 3 (pad_even [[[1, 2, 3]]])
   \<and> pad_even [[[1, 2, 3]]] ! 0 ! 0 = [1, 2, 3]
   \<and> pad_even [[[1, 2, 3]]] ! 1 ! 0 = [0, 0, 0]
   \<and> pad_even [[[1, 2, 3]]] ! 0 ! 1 = [0, 0, 0]
   \<and> pad_even [[[1, 2, 3]]] ! 1 ! 1 = [0, 0, 0]"
proof -
  have a: "has_shape 1 1 3 [[[1, 2, 3 :: 8 word]]]" by (simp add: has_shape_def)
  show ?thesis
    using a pad_even_spec[OF a] by (simp add: numeral_2_eq_2 numeral_3_eq_3)
qed

subsection \<open>Normalisation\<close>

lemma constant_samples:
  assumes "xs \<noteq> []" "data_min xs = data_max xs" "v \<in> set xs"
  shows "v = data_min xs"
proof -
  have "Min (set xs) \<le> v" "v \<le> Max (set xs)" using assms by simp_all
  then show ?thesis using assms(2) by (simp add: data_min_def data_max_def)
qed

lemma constant_quotient:
  assumes "xs \<noteq> []" "data_min xs = data_max xs" "v \<in> set xs"
  shows "norm_quotient (data_min xs) (data_max xs) v = NaN"
proof -
  have "v = data_min xs" by (rule constant_samples[OF assms])
  then have "v - data_min xs = 0" by simp
  moreover have "data_max xs - data_min xs = 0" using assms(2) by simp
  ultimately show ?thesis unfolding norm_quotient_def fdiv_def by simp
qed

lemma constant_norm_sample:
  assumes "xs \<noteq> []" "data_min xs = data_max xs" "v \<in> set xs"
  shows "norm_sample und (data_min xs) (data_max xs) v = und"
  unfolding norm_sample_def constant_quotient[OF assms] by simp

lemma map2_const:
  "(\<And>v. v \<in> set (concat g) \<Longrightarrow> f v = c) \<Longrightarrow> map (map f) g = map (map (\<lambda>v. c)) g"
  by (induction g) auto

lemma map3_const:
  "(\<And>v. v \<in> set (concat (concat a)) \<Longrightarrow> f v = c) \<Longrightarrow>
   map (map (map f)) a = map (map (map (\<lambda>v. c))) a"
  by (induction a) (auto intro!: map2_const)

text \<open>
  C2, as the code has it. For a frame (2-D or 3-D) with at least one sample whose
  minimum equals its maximum: the divisor \<open>max - min\<close> is zero, every norm_quotient is 0/0,
  that is \<^verbatim>\<open>nan\<close>, no error is raised, and every output sample is the byte \<open>und\<close> that the
  platform's cast of \<^verbatim>\<open>nan\<close> gives. The output is all zeros exactly when that byte is 0.
\<close>

theorem normalize_constant_frame:
  "(concat g \<noteq> [] \<and> data_min (concat g) = data_max (concat g) \<longrightarrow>
      data_max (concat g) - data_min (concat g) = 0
    \<and> (\<forall>v \<in> set (concat g). norm_quotient (data_min (concat g)) (data_max (concat g)) v = NaN)
    \<and> normalize2 und g = Inr (map (map (\<lambda>v. und)) g))
   \<and> (concat (concat a) \<noteq> [] \<and> data_min (concat (concat a)) = data_max (concat (concat a)) \<longrightarrow>
      data_max (concat (concat a)) - data_min (concat (concat a)) = 0
    \<and> (\<forall>v \<in> set (concat (concat a)).
          norm_quotient (data_min (concat (concat a))) (data_max (concat (concat a))) v = NaN)
    \<and> normalize3 und a = Inr (map (map (map (\<lambda>v. und))) a))"
proof (intro conjI impI ballI)
  assume h: "concat g \<noteq> [] \<and> data_min (concat g) = data_max (concat g)"
  then show "data_max (concat g) - data_min (concat g) = 0" by simp
  fix v assume "v \<in> set (concat g)"
  with h show "norm_quotient (data_min (concat g)) (data_max (concat g)) v = NaN"
    by (intro constant_quotient) blast+
next
  assume h: "concat g \<noteq> [] \<and> data_min (concat g) = data_max (concat g)"
  then have "map (map (norm_sample und (data_min (concat g)) (data_max (concat g)))) g
             = map (map (\<lambda>v. und)) g"
    by (intro map2_const constant_norm_sample) blast+
  with h show "normalize2 und g = Inr (map (map (\<lambda>v. und)) g)"
    unfolding normalize2_def Let_def by (simp only: if_False)
next
  assume h: "concat (concat a) \<noteq> [] \<and> data_min (concat (concat a)) = data_max (concat (concat a))"
  then show "data_max (concat (concat a)) - data_min (concat (concat a)) = 0" by simp
  fix v assume "v \<in> set (concat (concat a))"
  with h show "norm_quotient (data_min (concat (concat a))) (data_max (concat (concat a))) v = NaN"
    by (intro constant_quotient) blast+
next
  assume h: "concat (concat a) \<noteq> [] \<and> data_min (concat (concat a)) = data_max (concat (concat a))"
  then have "map (map (map (norm_sample und (data_min (concat (concat a))) (data_max (concat (concat a)))))) a
             = map (map (map (\<lambda>v. und))) a"
    by (intro map3_const constant_norm_sample) blast+
  with h show "normalize3 und a = Inr (map (map (map (\<lambda>v. und))) a)"
    unfolding normalize3_def Let_def by (simp only: if_False)
qed

theorem normalize_constant_frame_witness:
  "data_min (concat [[7, 7], [7, 7]]) = data_max (concat [[7, 7], [7, 7]])
   \<and> norm_quotient (data_min (concat [[7, 7], [7, 7]])) (data_max (concat [[7, 7], [7, 7]])) 7 = NaN
   \<and> normalize2 0 [[7, 7], [7, 7]] = Inr [[0, 0], [0, 0]]
   \<and> normalize3 0 [[[5], [5]]] = Inr [[[0], [0]]]"
proof -
  have a: "concat [[7, 7], [7, 7 :: rat]] \<noteq> [] \<and>
     data_min (concat [[7, 7], [7, 7]]) = data_max (concat [[7, 7], [7, 7]])"
    by (simp add: data_min_def data_max_def)
  have b: "concat (concat [[[5], [5 :: rat]]]) \<noteq> [] \<and>
     data_min (concat (concat [[[5], [5]]])) = data_max (concat (concat [[[5], [5]]]))"
    by (simp add: data_min_def data_max_def)
  have m: "(7::rat) \<in> set (concat [[7, 7], [7, 7]])" by simp
  from normalize_constant_frame[of "[[7, 7], [7, 7]]" 0 "[[[5], [5]]]"] a b
  have c: "\<forall>v \<in> set (concat [[7, 7], [7, 7]]).
             norm_quotient (data_min (concat [[7, 7], [7, 7]])) (data_max (concat [[7, 7], [7, 7]])) v = NaN"
    and d: "normalize2 0 [[7, 7], [7, 7]] = Inr (map (map (\<lambda>v. 0)) [[7, 7], [7, 7 :: rat]])"
    and e: "normalize3 0 [[[5], [5]]] = Inr (map (map (map (\<lambda>v. 0))) [[[5], [5 :: rat]]])"
    by blast+
  from c m have c': "norm_quotient (data_min (concat [[7, 7], [7, 7]])) (data_max (concat [[7, 7], [7, 7]])) 7 = NaN"
    by blast
  from d have d': "normalize2 0 [[7, 7], [7, 7]] = Inr [[0, 0], [0, 0]]" by simp
  from e have e': "normalize3 0 [[[5], [5]]] = Inr [[[0], [0]]]" by simp
  from a c' d' e' show ?thesis by blast
qed

text \<open>
  The claim C2 as stated fails: on the constant frame \<open>[[7, 7], [7, 7]]\<close> the division is
  carried out with divisor zero and every quotient is \<^verbatim>\<open>nan\<close>.
\<close>

theorem constant_frame_divides_by_zero:
  "data_min (concat [[7, 7], [7, 7]]) = data_max (concat [[7, 7], [7, 7]])
   \<and> data_max (concat [[7, 7], [7, 7]]) - data_min (concat [[7, 7], [7, 7]]) = 0
   \<and> map (map (norm_quotient (data_min (concat [[7, 7], [7, 7]])) (data_max (concat [[7, 7], [7, 7]]))))
        [[7, 7], [7, 7]] = [[NaN, NaN], [NaN, NaN]]"
  by code_simp

text \<open>
  C3. On the one-row frame with pixels \<open>(0, 0, 0)\<close> and \<open>(64, 128, 256)\<close> the code scales
  every channel by the frame's range 0 to 256 and drops the fraction (63, 127, 255); with a
  minimum and maximum per channel every channel would reach 255.
\<close>

theorem normalize3_global_range:
  "normalize3 und [[[0, 0, 0], [64, 128, 256]]] = Inr [[[0, 0, 0], [63, 127, 255]]]
   \<and> spec_normalize3 [[[0, 0, 0], [64, 128, 256]]] = [[[0, 0, 0], [255, 255, 255]]]"
  by code_simp

section \<open>Properties of the job\<close>

subsection \<open>Spelled-out text and paths\<close>

lemma asc_eq_iff [simp]: "asc s = asc t \<longleftrightarrow> s = t"
  by (simp add: asc_def inj_map_eq_map inj_on_def)

lemma asc_Nil [simp]: "asc [] = []"
  by (simp add: asc_def)

lemma asc_eq_Nil [simp]: "asc s = [] \<longleftrightarrow> s = []"
  by (simp add: asc_def)

lemma length_asc [simp]: "length (asc s) = length s"
  by (simp add: asc_def)

lemma asc_Cons: "asc (c # s) = of_char c # asc s"
  by (simp add: asc_def)

lemma asc_append: "asc (s @ t) = asc s @ asc t"
  by (simp add: asc_def)

lemma last_asc: "s \<noteq> [] \<Longrightarrow> last (asc s) = of_char (last s)"
  by (simp add: asc_def last_map)

lemma asc_less_iff [simp]: "asc s < asc t \<longleftrightarrow> s < t"
proof (induction s arbitrary: t)
  case Nil
  then show ?case by (cases t) (simp_all add: asc_def)
next
  case (Cons c s)
  show ?case
  proof (cases t)
    case Nil
    then show ?thesis by (simp add: asc_def)
  next
    case (Cons d u)
    with Cons.IH[of u] show ?thesis by (auto simp: asc_Cons less_char_def)
  qed
qed

lemma asc_le_iff [simp]: "asc s \<le> asc t \<longleftrightarrow> s \<le> t"
  by (simp add: le_less)

lemma last_path_join: "n \<noteq> [] \<Longrightarrow> last (path_join d n) = last n"
  by (simp add: path_join_def)

subsection \<open>Plans and the fallback command\<close>

lemma bmp_pattern_word [simp]: "path_join d (asc ''frame_%04d.bmp'') \<noteq> (asc ''-c:v'')"
proof
  assume "path_join d (asc ''frame_%04d.bmp'') = (asc ''-c:v'')"
  then have "last (path_join d (asc ''frame_%04d.bmp'')) = last (asc ''-c:v'')" by simp
  then show False by (simp add: last_path_join last_asc)
qed

lemma png_pattern_word [simp]: "path_join d (asc ''frame_%04d.png'') \<noteq> (asc ''-c:v'')"
proof
  assume "path_join d (asc ''frame_%04d.png'') = (asc ''-c:v'')"
  then have "last (path_join d (asc ''frame_%04d.png'')) = last (asc ''-c:v'')" by simp
  then show False by (simp add: last_path_join last_asc)
qed

lemma raw_file_word [simp]: "path_join d (asc ''raw_frames.rgb'') \<noteq> (asc ''-c:v'')"
proof
  assume "path_join d (asc ''raw_frames.rgb'') = (asc ''-c:v'')"
  then have "last (path_join d (asc ''raw_frames.rgb'')) = last (asc ''-c:v'')" by simp
  then show False by (simp add: last_path_join last_asc)
qed

lemma size_word [simp]: "s @ asc ''x'' @ t \<noteq> asc ''-c:v''"
proof
  assume h: "s @ asc ''x'' @ t = asc ''-c:v''"
  have "of_char CHR ''x'' \<in> set (s @ asc ''x'' @ t)" by (simp add: asc_def)
  then have "of_char CHR ''x'' \<in> set (asc ''-c:v'')" unfolding h .
  then show False by (simp add: asc_def)
qed

lemma codec_image_cmd:
  assumes "pat \<noteq> (asc ''-c:v'')"
  shows "codec_of (image_cmd a encoder pat) = Some encoder"
proof -
  consider (x) "encoder = (asc ''libx264'')" | (v) "encoder \<noteq> (asc ''libx264'')" "encoder = (asc ''h264_vaapi'')"
    | (o) "encoder \<noteq> (asc ''libx264'')" "encoder \<noteq> (asc ''h264_vaapi'')" by blast
  then show ?thesis
  proof cases
    case x
    then have "image_cmd a encoder pat = [(asc ''ffmpeg''), (asc ''-y''), (asc ''-framerate''), (asc ''60''), (asc ''-i''), pat,
            (asc ''-c:v''), encoder, (asc ''-pix_fmt''), (asc ''yuv420p''), (asc ''-crf''), (asc ''23''), output_file a]"
      by (simp add: image_cmd_def)
    with assms show ?thesis by simp
  next
    case v
    then have "image_cmd a encoder pat = [(asc ''ffmpeg''), (asc ''-y''), (asc ''-framerate''), (asc ''60''),
            (asc ''-hwaccel''), (asc ''vaapi''), (asc ''-hwaccel_output_format''), (asc ''vaapi''), (asc ''-i''), pat,
            (asc ''-c:v''), (asc ''h264_vaapi''), (asc ''-b:v''), (asc ''8M''), output_file a]"
      by (simp add: image_cmd_def)
    with assms v show ?thesis by simp
  next
    case o
    then have "image_cmd a encoder pat = [(asc ''ffmpeg''), (asc ''-y''), (asc ''-framerate''), (asc ''60''), (asc ''-i''), pat,
            (asc ''-c:v''), encoder, (asc ''-pix_fmt''), (asc ''yuv420p''), (asc ''-b:v''), (asc ''8M''), output_file a]"
      by (simp add: image_cmd_def)
    with assms show ?thesis by simp
  qed
qed

lemma raw_pipeline_plan:
  assumes "raw_pipeline a encoder frames fs = (Inr pl, fs')"
  shows "codec_of (ffmpeg_cmd pl) = Some encoder
         \<and> input_pattern pl = None
         \<and> (\<exists>w h. raw_input pl = Some (w, h, path_join (temp_dir a) (asc ''raw_frames.rgb'')))"
proof (cases frames)
  case Nil
  with assms show ?thesis by (simp add: raw_pipeline_def Let_def)
next
  case (Cons f rest)
  with assms show ?thesis
    by (cases "encoder = (asc ''libx264'')") (auto simp: raw_pipeline_def Let_def)
qed

lemma build_plan:
  assumes "build a encoder n fs = (Inr pl, fs')"
  shows "built a encoder pl"
proof -
  consider (b) "bmp a" | (p) "\<not> bmp a" "png a" | (v) "\<not> bmp a" "\<not> png a" "encoder = (asc ''h264_vaapi'')"
    | (r) "\<not> bmp a" "\<not> png a" "encoder \<noteq> (asc ''h264_vaapi'')" by blast
  then show ?thesis
  proof cases
    case b
    with assms have "pl = \<lparr>ffmpeg_cmd = image_cmd a encoder (path_join (temp_dir a) (asc ''frame_%04d.bmp'')),
                 file_extension = (asc ''*.bmp''),
                 input_pattern = Some (path_join (temp_dir a) (asc ''frame_%04d.bmp'')),
                 raw_input = None\<rparr>" by (simp add: build_def)
    with b show ?thesis by (simp add: built_def codec_image_cmd)
  next
    case p
    with assms have "pl = \<lparr>ffmpeg_cmd = image_cmd a encoder (path_join (temp_dir a) (asc ''frame_%04d.png'')),
                 file_extension = (asc ''*.png''),
                 input_pattern = Some (path_join (temp_dir a) (asc ''frame_%04d.png'')),
                 raw_input = None\<rparr>" by (simp add: build_def)
    with p show ?thesis by (simp add: built_def codec_image_cmd)
  next
    case v
    with assms have "pl = \<lparr>ffmpeg_cmd =
                             [(asc ''ffmpeg''), (asc ''-y''), (asc ''-framerate''), (asc ''60''),
                              (asc ''-i''), path_join (temp_dir a) (asc ''frame_%04d.bmp''),
                              (asc ''-c:v''), (asc ''h264_vaapi''), (asc ''-b:v''), (asc ''8M''), output_file a],
                           file_extension = (asc ''*.npy''),
                           input_pattern = Some (path_join (temp_dir a) (asc ''frame_%04d.bmp'')),
                           raw_input = None\<rparr>"
      by (simp add: build_def split: prod.splits sum.splits)
    with v show ?thesis by (simp add: built_def)
  next
    case r
    with assms obtain frames where "raw_pipeline a encoder frames fs = (Inr pl, fs')"
      by (auto simp: build_def split: sum.splits)
    from raw_pipeline_plan[OF this] r show ?thesis by (simp add: built_def)
  qed
qed

lemma built_fallback:
  assumes "built a encoder pl"
  shows "\<exists>fc. fallback_cmd a encoder pl = Inr fc \<and> codec_of fc = Some (asc ''libx264'')"
proof -
  consider (v) "encoder = (asc ''h264_vaapi'')" | (b) "encoder \<noteq> (asc ''h264_vaapi'')" "bmp a"
    | (p) "encoder \<noteq> (asc ''h264_vaapi'')" "\<not> bmp a" "png a"
    | (r) "\<not> bmp a" "\<not> png a" "encoder \<noteq> (asc ''h264_vaapi'')" by blast
  then show ?thesis
  proof cases
    case v
    then show ?thesis by (simp add: fallback_cmd_def)
  next
    case b
    with assms have "input_pattern pl = Some (path_join (temp_dir a) (asc ''frame_%04d.bmp''))"
      by (simp add: built_def)
    with b show ?thesis by (simp add: fallback_cmd_def)
  next
    case p
    with assms have "input_pattern pl = Some (path_join (temp_dir a) (asc ''frame_%04d.png''))"
      by (simp add: built_def)
    with p show ?thesis by (simp add: fallback_cmd_def)
  next
    case r
    with assms obtain w h where "raw_input pl = Some (w, h, path_join (temp_dir a) (asc ''raw_frames.rgb''))"
      by (auto simp: built_def)
    with r show ?thesis by (simp add: fallback_cmd_def)
  qed
qed

lemma attempts_le_2: "length (snd (run_with_fallback e a encoder pl)) \<le> 2"
proof (cases "run_checked e 0 (ffmpeg_cmd pl)")
  case (Inr u)
  then show ?thesis by (simp add: run_with_fallback_def)
next
  case (Inl er)
  show ?thesis
  proof (cases er)
    case (CalledProcessError rc c)
    with Inl show ?thesis
      by (cases "fallback_cmd a encoder pl") (simp_all add: run_with_fallback_def)
  qed (use Inl in \<open>simp_all add: run_with_fallback_def\<close>)
qed

subsection \<open>Extraction and artifact names\<close>

lemma digit_val_digit_char: "digit_val (digit_char d) = d"
  by (simp add: digit_val_def digit_char_def)

lemma parse_nat_snoc: "parse_nat (s @ [c]) = 10 * parse_nat s + digit_val c"
  by (simp add: parse_nat_def)

lemma parse_str_nat: "parse_nat (str_nat n) = n"
proof (induction n rule: str_nat.induct)
  case (1 n)
  show ?case
  proof (cases "n < 10")
    case True
    then have "str_nat n = [digit_char n]" by (simp add: str_nat.simps)
    with True show ?thesis by (simp add: parse_nat_def digit_val_digit_char)
  next
    case False
    then have "str_nat n = str_nat (n div 10) @ [digit_char (n mod 10)]"
      by (subst str_nat.simps) simp
    with False "1.IH" show ?thesis by (simp add: parse_nat_snoc digit_val_digit_char)
  qed
qed

lemma parse_nat_zeros: "parse_nat (replicate k 48 @ s) = parse_nat s"
  unfolding parse_nat_def by (induction k) (simp_all add: digit_val_def)

lemma parse_zfill: "parse_nat (zfill w (str_nat n)) = n"
  by (simp add: zfill_def parse_nat_zeros parse_str_nat)

lemma frame_name_inj: "frame_name i ext = frame_name j ext \<Longrightarrow> i = j"
proof -
  assume "frame_name i ext = frame_name j ext"
  then have "zfill 4 (str_nat i) = zfill 4 (str_nat j)" by (simp add: frame_name_def)
  then have "parse_nat (zfill 4 (str_nat i)) = parse_nat (zfill 4 (str_nat j))" by simp
  then show "i = j" by (simp add: parse_zfill)
qed

lemma img_chans_to_bgr: "img_chans (to_bgr rgb) = img_chans rgb"
  by (auto simp: to_bgr_def img_chans_def split: list.splits)

lemma save_frame_eq:
  "writable a rgb \<Longrightarrow>
   save_frame a i rgb fs = Inr (fs_write (frame_name i (frame_ext a)) (frame_content a rgb) fs)"
  by (auto simp: save_frame_def frame_ext_def frame_content_def writable_def imwrite_def
      img_chans_to_bgr)

lemma save_frame_unwritable: "\<not> writable a rgb \<Longrightarrow> save_frame a i rgb fs = Inl ImwriteError"
  by (auto simp: save_frame_def writable_def imwrite_def img_chans_to_bgr split: if_splits)

lemma extract_frames_run:
  "map (decoded e) files = map Some frames \<Longrightarrow> list_all (writable a) frames \<Longrightarrow>
   extract_frames e a i files fs
     = (Inr (),
        filter (\<lambda>x. fst x \<notin> (\<lambda>k. frame_name k (frame_ext a)) ` {i..<i + length files}) fs
        @ map (\<lambda>(k, rgb). (frame_name k (frame_ext a), frame_content a rgb))
            (List.enumerate i frames))"
proof (induction files arbitrary: i fs frames)
  case Nil
  then show ?case by simp
next
  case (Cons f rest)
  from Cons.prems(1) obtain rgb others where fr: "frames = rgb # others"
    and d: "decoded e f = Some rgb" and r: "map (decoded e) rest = map Some others"
    by (cases frames) auto
  from Cons.prems(2) fr have w: "writable a rgb" and ws: "list_all (writable a) others"
    by simp_all
  from d obtain data where g: "getdata e f = Some data"
    and p: "process_frame (nan_byte e) data = Inr rgb"
    by (auto simp: decoded_def split: option.splits sum.splits)
  let ?n = "frame_name i (frame_ext a)"
  let ?N = "(\<lambda>k. frame_name k (frame_ext a)) ` {Suc i..<Suc i + length rest}"
  let ?fs = "fs_write ?n (frame_content a rgb) fs"
  have fresh: "?n \<notin> ?N"
  proof
    assume "?n \<in> ?N"
    then obtain k where "Suc i \<le> k" "?n = frame_name k (frame_ext a)" by auto
    then show False using frame_name_inj[of i "frame_ext a" k] by simp
  qed
  have split: "(\<lambda>k. frame_name k (frame_ext a)) ` {i..<i + length (f # rest)} = insert ?n ?N"
  proof -
    have "{i..<i + length (f # rest)} = insert i {Suc i..<Suc i + length rest}" by auto
    then show ?thesis by simp
  qed
  have fl: "filter (\<lambda>x. fst x \<notin> ?N) ?fs
        = filter (\<lambda>x. fst x \<notin> insert ?n ?N) fs @ [(?n, frame_content a rgb)]"
    using fresh by (auto simp: fs_write_def fs_remove_def intro: filter_cong)
  have "extract_frames e a i (f # rest) fs = extract_frames e a (Suc i) rest ?fs"
    using g p by (simp add: save_frame_eq[OF w])
  also have "\<dots> = (Inr (), filter (\<lambda>x. fst x \<notin> ?N) ?fs
        @ map (\<lambda>(k, rgb). (frame_name k (frame_ext a), frame_content a rgb))
            (List.enumerate (Suc i) others))"
    by (rule Cons.IH[OF r ws])
  finally show ?case unfolding split fl by (simp add: fr)
qed

lemma length_fixed_width: "length (fixed_width k n) = k"
  by (induction k arbitrary: n) simp_all

lemma digit_char_zero: "digit_char 0 = 48"
  by (simp add: digit_char_def)

lemma fixed_width_zero: "fixed_width k 0 = replicate k 48"
  by (induction k) (simp_all add: replicate_append_same digit_char_zero)

lemma zfill_snoc: "zfill (Suc k) (s @ [c]) = zfill k s @ [c]"
  by (simp add: zfill_def)

lemma zfill_fixed_width: "n < 10 ^ k \<Longrightarrow> 0 < k \<Longrightarrow> zfill k (str_nat n) = fixed_width k n"
proof (induction k arbitrary: n)
  case 0
  then show ?case by simp
next
  case (Suc k)
  show ?case
  proof (cases "n < 10")
    case True
    then have "str_nat n = [] @ [digit_char n]" by (simp add: str_nat.simps)
    then have "zfill (Suc k) (str_nat n) = zfill k [] @ [digit_char n]" by (simp only: zfill_snoc)
    with True show ?thesis by (simp add: zfill_def fixed_width_zero)
  next
    case False
    then have k: "0 < k" using Suc.prems(1) by (cases k) simp_all
    from False have "str_nat n = str_nat (n div 10) @ [digit_char (n mod 10)]"
      by (subst str_nat.simps) simp
    then have z: "zfill (Suc k) (str_nat n) = zfill k (str_nat (n div 10)) @ [digit_char (n mod 10)]"
      by (simp only: zfill_snoc)
    have "n div 10 < 10 ^ k" using Suc.prems(1) by (simp add: less_mult_imp_div_less mult.commute)
    from Suc.IH[OF this k] z show ?thesis by simp
  qed
qed

lemma digit_char_less: "digit_char a < digit_char b \<longleftrightarrow> a < b"
  by (simp add: digit_char_def)

lemma less_append_same_length:
  "length xs = length ys \<Longrightarrow> xs < ys \<Longrightarrow> xs @ u < ys @ (v :: 'a :: linorder list)"
  by (induction xs ys rule: list_induct2) auto

lemma less_common_prefix: "u @ xs < u @ ys \<longleftrightarrow> xs < (ys :: 'a :: linorder list)"
  by (induction u) auto

lemma fixed_width_mono: "i < j \<Longrightarrow> j < 10 ^ k \<Longrightarrow> fixed_width k i < fixed_width k j"
proof (induction k arbitrary: i j)
  case 0
  then show ?case by simp
next
  case (Suc k)
  have le: "i div 10 \<le> j div 10" using Suc.prems(1) by (simp add: div_le_mono)
  have jk: "j div 10 < 10 ^ k" using Suc.prems(2) by (simp add: less_mult_imp_div_less mult.commute)
  show ?case
  proof (cases "i div 10 < j div 10")
    case True
    from Suc.IH[OF True jk] show ?thesis
      by (simp add: less_append_same_length length_fixed_width)
  next
    case False
    with le have eq: "i div 10 = j div 10" by simp
    have "i mod 10 < j mod 10"
    proof -
      have "i = 10 * (i div 10) + i mod 10" "j = 10 * (j div 10) + j mod 10" by simp_all
      with eq Suc.prems(1) show ?thesis by linarith
    qed
    then have "[digit_char (i mod 10)] < [digit_char (j mod 10)]" by (simp add: digit_char_less)
    with eq show ?thesis by (simp add: less_common_prefix)
  qed
qed

lemma frame_name_less:
  assumes "i < j" "j < 10000"
  shows "frame_name i ext < frame_name j ext"
proof -
  have i: "zfill 4 (str_nat i) = fixed_width 4 i" using assms by (intro zfill_fixed_width) simp_all
  have j: "zfill 4 (str_nat j) = fixed_width 4 j" using assms by (intro zfill_fixed_width) simp_all
  have "fixed_width 4 i < fixed_width 4 j" using assms by (intro fixed_width_mono) simp_all
  then have "fixed_width 4 i @ ext < fixed_width 4 j @ ext"
    by (intro less_append_same_length) (simp_all add: length_fixed_width)
  then show ?thesis unfolding frame_name_def i j by (simp only: less_common_prefix)
qed

lemma map_fst_zip_fun:
  "length xs = length ys \<Longrightarrow> map (\<lambda>x. f (fst x)) (zip xs ys) = map f xs"
  by (induction xs ys rule: list_induct2) simp_all

lemma names_artifacts: "names (artifacts a frames) = artifact_names a (length frames)"
  using map_fst_zip_fun[of "[0..<length frames]" frames "\<lambda>k. frame_name k (frame_ext a)"]
  by (simp add: names_def artifacts_def artifact_names_def enumerate_eq_zip comp_def
      case_prod_unfold del: upt_Suc)

lemma nth_artifacts:
  "k < length frames \<Longrightarrow>
   artifacts a frames ! k = (frame_name k (frame_ext a), frame_content a (frames ! k))"
  by (simp add: artifacts_def nth_enumerate_eq)

lemma distinct_artifact_names: "distinct (artifact_names a n)"
  unfolding artifact_names_def
  by (simp add: distinct_map inj_on_def del: upt_Suc) (blast dest: frame_name_inj)

lemma sorted_artifact_names: "n \<le> 10000 \<Longrightarrow> sorted_wrt (<) (artifact_names a n)"
  unfolding artifact_names_def
  by (auto simp: sorted_wrt_iff_nth_less intro!: frame_name_less)

text \<open>
  C8, as the code has it. A frame set is valid when every source file decodes and, for
  \<^verbatim>\<open>--bmp\<close> and \<^verbatim>\<open>--png\<close>, every frame has one, three or four channels (\<^verbatim>\<open>cv2.imwrite\<close>
  raises for any other number). Extraction of a valid frame set succeeds, whatever regular
  files the staging directory held: files that bear the name of an artifact are replaced,
  the others stay, and exactly one artifact per source file is written. The artifact at
  position \<open>k\<close> has the name built from \<open>k\<close> and holds the frame of the \<open>k\<close>-th file of the
  sorted list, so the sequence numbers are 0 to N - 1 in source order; the names are
  pairwise different; and for at most 10000 files the names increase in lexical order.
\<close>

theorem extraction_sequence:
  assumes "map (decoded e) files = map Some frames" and "list_all (writable a) frames"
  shows "extract_frames e a 0 files fs
           = (Inr (), filter (\<lambda>x. fst x \<notin> set (artifact_names a (length files))) fs
                      @ artifacts a frames)
         \<and> length (artifacts a frames) = length files
         \<and> names (artifacts a frames) = map (\<lambda>k. frame_name k (frame_ext a)) [0..<length files]
         \<and> (\<forall>k<length files.
               artifacts a frames ! k = (frame_name k (frame_ext a), frame_content a (frames ! k)))
         \<and> distinct (names (artifacts a frames))
         \<and> (length files \<le> 10000 \<longrightarrow> sorted_wrt (<) (names (artifacts a frames)))"
proof -
  have len: "length frames = length files"
    using assms(1) by (metis length_map)
  have s: "set (artifact_names a (length files))
           = (\<lambda>k. frame_name k (frame_ext a)) ` {0..<0 + length files}"
    by (simp add: artifact_names_def del: upt_Suc)
  have run: "extract_frames e a 0 files fs
           = (Inr (), filter (\<lambda>x. fst x \<notin> set (artifact_names a (length files))) fs
                      @ artifacts a frames)"
    unfolding s artifacts_def by (rule extract_frames_run[OF assms])
  have l: "length (artifacts a frames) = length files"
    by (simp add: artifacts_def len)
  have n: "names (artifacts a frames) = map (\<lambda>k. frame_name k (frame_ext a)) [0..<length files]"
    unfolding names_artifacts len artifact_names_def ..
  have c: "\<forall>k<length files.
               artifacts a frames ! k = (frame_name k (frame_ext a), frame_content a (frames ! k))"
    using nth_artifacts len by simp
  have d: "distinct (names (artifacts a frames))"
    unfolding names_artifacts by (rule distinct_artifact_names)
  have o: "length files \<le> 10000 \<longrightarrow> sorted_wrt (<) (names (artifacts a frames))"
    unfolding names_artifacts len by (simp add: sorted_artifact_names)
  from run l n c d o show ?thesis by blast
qed

text \<open>
  The claim C8 as stated fails for more than 10000 frames: the name of frame 10000 has five
  digits and sorts before the name of frame 9999.
\<close>

lemma str_nat_9999: "str_nat 9999 = [digit_char 9, digit_char 9, digit_char 9, digit_char 9]"
  by (simp add: str_nat.simps)

lemma str_nat_10000:
  "str_nat 10000 = [digit_char 1, digit_char 0, digit_char 0, digit_char 0, digit_char 0]"
  by (simp add: str_nat.simps)

theorem frame_names_beyond_four_digits:
  "frame_name 10000 (asc ''.npy'') < frame_name 9999 (asc ''.npy'')
   \<and> \<not> sorted_wrt (<) (map (\<lambda>k. frame_name k (asc ''.npy'')) [9999, 10000])"
proof -
  have "digit_char 1 < digit_char 9" by (simp add: digit_char_less)
  then have "frame_name 10000 (asc ''.npy'') < frame_name 9999 (asc ''.npy'')"
    by (simp add: frame_name_def zfill_def str_nat_9999 str_nat_10000 less_common_prefix)
  then show ?thesis by (simp add: not_less_iff_gr_or_eq)
qed

text \<open>
  The two exposures, extracted into the directory that an earlier run left behind: the
  stale frame of index 1 is replaced, the other file stays.
\<close>

lemma process_frame_a: "process_frame 0 (D2 [[0, 1], [2, 4]]) = Inr frame_a"
  by code_simp

lemma process_frame_b: "process_frame 0 (D2 [[4, 0], [2, 1]]) = Inr frame_b"
  by code_simp

lemma decoded_two_frames:
  "map (decoded two_frames_env) [asc ''./a.fits'', asc ''./b.fits''] = map Some [frame_a, frame_b]"
  by (simp add: decoded_def two_frames_env_def process_frame_a process_frame_b)

lemma frame_name_0: "frame_name 0 ext = asc ''frame_0000'' @ ext"
  by (simp add: frame_name_def zfill_def str_nat.simps digit_char_def asc_def numeral_3_eq_3)

lemma frame_name_1: "frame_name (Suc 0) ext = asc ''frame_0001'' @ ext"
  by (simp add: frame_name_def zfill_def str_nat.simps digit_char_def asc_def numeral_3_eq_3)


lemma artifacts_two_frames:
  "artifacts default_args [frame_a, frame_b]
     = [(asc ''frame_0000.npy'', Npy frame_a), (asc ''frame_0001.npy'', Npy frame_b)]"
  by (simp add: artifacts_def frame_ext_def frame_content_def default_args_def frame_name_0
      frame_name_1 asc_append[symmetric])

theorem extraction_sequence_witness:
  "extract_frames two_frames_env default_args 0 [asc ''./a.fits'', asc ''./b.fits''] stale_files
     = (Inr (), [(asc ''notes.txt'', RawBytes []),
                 (asc ''frame_0000.npy'', Npy frame_a), (asc ''frame_0001.npy'', Npy frame_b)])
   \<and> sorted_wrt (<) [asc ''frame_0000.npy'', asc ''frame_0001.npy'']"
proof -
  have w: "list_all (writable default_args) [frame_a, frame_b]"
    by (simp add: writable_def default_args_def)
  note t = extraction_sequence[OF decoded_two_frames w, of stale_files]
  have n: "artifact_names default_args (length [asc ''./a.fits'', asc ''./b.fits''])
           = [asc ''frame_0000.npy'', asc ''frame_0001.npy'']"
    using names_artifacts[of default_args "[frame_a, frame_b]"]
    by (simp add: artifacts_two_frames names_def)
  from t have "extract_frames two_frames_env default_args 0 [asc ''./a.fits'', asc ''./b.fits'']
        stale_files
     = (Inr (), filter (\<lambda>x. fst x \<notin> set (artifact_names default_args
                          (length [asc ''./a.fits'', asc ''./b.fits'']))) stale_files
                @ artifacts default_args [frame_a, frame_b])"
    by (rule conjunct1)
  then have r: "extract_frames two_frames_env default_args 0 [asc ''./a.fits'', asc ''./b.fits'']
        stale_files
     = (Inr (), [(asc ''notes.txt'', RawBytes []),
                 (asc ''frame_0000.npy'', Npy frame_a), (asc ''frame_0001.npy'', Npy frame_b)])"
    unfolding n artifacts_two_frames by (simp add: stale_files_def del: extract_frames.simps)
  from t have "length [asc ''./a.fits'', asc ''./b.fits''] \<le> 10000 \<longrightarrow>
      sorted_wrt (<) (names (artifacts default_args [frame_a, frame_b]))"
    by blast
  then have s: "sorted_wrt (<) [asc ''frame_0000.npy'', asc ''frame_0001.npy'']"
    by (simp add: artifacts_two_frames names_def)
  from r s show ?thesis by blast
qed

subsection \<open>The raw stream\<close>












subsection \<open>Removal of the staging directory\<close>

text \<open>
  The names present in the staging directory after each stage, and the effect of the final
  cleanup block on them.
\<close>

lemma names_fs_write: "set (names (fs_write n c fs)) = insert n (set (names fs))"
  by (auto simp: names_def fs_write_def fs_remove_def)

lemma imwrite_names:
  "imwrite n bgr_data fs = Inr fs' \<Longrightarrow> set (names fs') = insert n (set (names fs))"
  by (auto simp: imwrite_def names_fs_write split: if_splits)

lemma save_frame_names:
  "save_frame a i rgb fs = Inr fs' \<Longrightarrow>
   set (names fs') = insert (frame_name i (frame_ext a)) (set (names fs))"
  by (auto simp: save_frame_def frame_ext_def names_fs_write dest!: imwrite_names split: if_splits)

lemma extract_frames_names:
  "extract_frames e a i files fs = (Inr (), fs1) \<Longrightarrow>
   set (names fs1) = set (names fs) \<union> (\<lambda>k. frame_name k (frame_ext a)) ` {i..<i + length files}"
proof (induction files arbitrary: i fs)
  case Nil
  then show ?case by simp
next
  case (Cons f rest)
  from Cons.prems obtain data rgb fs' where "getdata e f = Some data"
    and "process_frame (nan_byte e) data = Inr rgb"
    and s: "save_frame a i rgb fs = Inr fs'"
    and x: "extract_frames e a (Suc i) rest fs' = (Inr (), fs1)"
    by (auto split: option.splits sum.splits)
  have "{i..<i + length (f # rest)} = insert i {Suc i..<Suc i + length rest}" by auto
  then show ?case using Cons.IH[OF x] save_frame_names[OF s] by auto
qed

lemma convert_to_bmp_names:
  "convert_to_bmp ks fs = (Inr (), fs') \<Longrightarrow>
   set (names fs') = set (names fs) \<union> (\<lambda>k. frame_name k (asc ''.bmp'')) ` set ks"
proof (induction ks arbitrary: fs)
  case Nil
  then show ?case by simp
next
  case (Cons k rest)
  from Cons.prems obtain frame_data fs1 where "load_npy fs k = Inr frame_data"
    and w: "imwrite (frame_name k (asc ''.bmp'')) (to_bgr frame_data) fs = Inr fs1"
    and c: "convert_to_bmp rest fs1 = (Inr (), fs')"
    by (auto split: sum.splits)
  from Cons.IH[OF c] imwrite_names[OF w] show ?case by auto
qed

lemma raw_pipeline_names:
  "raw_pipeline a encoder frames fs = (r, fs') \<Longrightarrow>
   set (names fs') = insert (asc ''raw_frames.rgb'') (set (names fs))"
  by (cases frames) (auto simp: raw_pipeline_def Let_def names_fs_write)

lemma raw_pipeline_ext:
  "raw_pipeline a encoder frames fs = (Inr pl, fs') \<Longrightarrow> file_extension pl = asc ''*.npy''"
  by (cases frames; cases "encoder = asc ''libx264''") (auto simp: raw_pipeline_def Let_def)

lemma build_names:
  assumes "build a encoder n fs = (Inr pl, fs2)"
  shows "file_extension pl = asc ''*'' @ frame_ext a
    \<and> set (names fs2)
        = set (names fs)
          \<union> (if bmp a \<or> png a then {}
             else if encoder = asc ''h264_vaapi'' then (\<lambda>k. frame_name k (asc ''.bmp'')) ` {0..<n}
             else {asc ''raw_frames.rgb''})"
proof -
  consider (b) "bmp a" | (p) "\<not> bmp a" "png a" | (v) "\<not> bmp a" "\<not> png a" "encoder = asc ''h264_vaapi''"
    | (r) "\<not> bmp a" "\<not> png a" "encoder \<noteq> asc ''h264_vaapi''" by blast
  then show ?thesis
  proof cases
    case b
    with assms have "fs2 = fs" "file_extension pl = asc ''*.bmp''" by (auto simp: build_def)
    with b show ?thesis by (simp add: frame_ext_def asc_append[symmetric])
  next
    case p
    with assms have "fs2 = fs" "file_extension pl = asc ''*.png''" by (auto simp: build_def)
    with p show ?thesis by (simp add: frame_ext_def asc_append[symmetric])
  next
    case v
    obtain r0 fs0 where c: "convert_to_bmp [0..<n] fs = (r0, fs0)" by (cases "convert_to_bmp [0..<n] fs")
    with assms v have "fs2 = fs0" "file_extension pl = asc ''*.npy''" "r0 = Inr ()"
      by (auto simp: build_def split: sum.splits)
    with convert_to_bmp_names[of "[0..<n]" fs fs0] c v show ?thesis
      by (simp add: frame_ext_def asc_append[symmetric] del: upt_Suc)
  next
    case r
    with assms obtain frames where rp: "raw_pipeline a encoder frames fs = (Inr pl, fs2)"
      by (auto simp: build_def split: sum.splits)
    from raw_pipeline_names[OF rp] raw_pipeline_ext[OF rp] r show ?thesis
      by (simp add: frame_ext_def asc_append[symmetric])
  qed
qed

lemma ends_with_append: "ends_with suf (xs @ suf)"
  by (simp add: ends_with_def)

lemma glob_match_frame: "glob_match (asc ''*'' @ ext) (frame_name k ext)"
proof -
  have "frame_name k ext = (asc ''frame_'' @ zfill 4 (str_nat k)) @ ext" by (simp add: frame_name_def)
  then have "ends_with ext (frame_name k ext)" by (simp only: ends_with_append)
  moreover have "\<not> hidden (frame_name k ext)" by (simp add: hidden_def frame_name_def asc_def)
  ultimately show ?thesis by (simp add: glob_match_def asc_def)
qed

lemma has_magic_append: "has_magic (s @ t) \<longleftrightarrow> has_magic s \<or> has_magic t"
  by (simp add: has_magic_def list_ex_append)

lemma has_magic_temp_dir: "has_magic (temp_dir a) \<longleftrightarrow> has_magic (directory a)"
proof -
  have n: "\<not> has_magic (asc ''temp_frames'')" "\<not> has_magic (asc ''/'')"
    by (simp_all add: has_magic_def asc_def)
  have h: "hd (asc ''temp_frames'') \<noteq> of_char CHR ''/''" by (simp add: asc_def)
  show ?thesis
    unfolding temp_dir_def path_join_def using n h
    by (auto simp: has_magic_append) (simp add: has_magic_def)
qed

lemma cleanup_all:
  assumes "\<not> has_magic (directory a) \<or> glob_self e"
    and "\<forall>m \<in> set (names fs).
             glob_match (file_extension pl) m
             \<or> (\<not> bmp a \<and> encoder = asc ''h264_vaapi'' \<and> glob_match (asc ''*.bmp'') m)
             \<or> (\<not> (bmp a \<or> png a) \<and> encoder \<noteq> asc ''h264_vaapi'' \<and> m = asc ''raw_frames.rgb'')"
  shows "cleanup e a encoder pl fs = (Inr (), [], False)"
proof -
  have g: "glob_remove e a pat xs = remove_glob pat xs" for pat xs
    using assms(1) by (auto simp: glob_remove_def has_magic_temp_dir)
  let ?fs1 = "remove_glob (file_extension pl) fs"
  let ?fs2 = "if \<not> bmp a \<and> encoder = asc ''h264_vaapi'' then remove_glob (asc ''*.bmp'') ?fs1 else ?fs1"
  let ?fs3 = "if \<not> (bmp a \<or> png a) \<and> encoder \<noteq> asc ''h264_vaapi''
              then (if asc ''raw_frames.rgb'' \<in> set (names ?fs2)
                    then fs_remove (asc ''raw_frames.rgb'') ?fs2 else ?fs2)
              else ?fs2"
  have r: "(if asc ''raw_frames.rgb'' \<in> set (names xs) then fs_remove (asc ''raw_frames.rgb'') xs else xs)
           = fs_remove (asc ''raw_frames.rgb'') xs" for xs :: files
  proof (cases "asc ''raw_frames.rgb'' \<in> set (names xs)")
    case True
    then show ?thesis by simp
  next
    case False
    then have "filter (\<lambda>e. fst e \<noteq> asc ''raw_frames.rgb'') xs = xs"
      by (force simp: names_def filter_id_conv)
    with False show ?thesis by (simp add: fs_remove_def)
  qed
  let ?g = "if \<not> (bmp a \<or> png a) \<and> encoder \<noteq> asc ''h264_vaapi''
            then fs_remove (asc ''raw_frames.rgb'') ?fs2 else ?fs2"
  have "set ?g = {}"
    using assms(2) by (auto simp: remove_glob_def fs_remove_def names_def)
  then have "?g = []" by (simp only: set_empty)
  moreover have "?fs3 = ?g" by (simp only: r)
  ultimately have "?fs3 = []" by simp
  then show ?thesis unfolding cleanup_def Let_def g by simp
qed

lemma cleanup_outcome:
  "cleanup e a encoder pl fs = (r, fs3, d) \<Longrightarrow>
   (r = Inr () \<and> fs3 = [] \<and> \<not> d) \<or> (r = Inl OSError \<and> fs3 \<noteq> [] \<and> d)"
  by (auto simp: cleanup_def Let_def split: if_splits)




lemma job_reaches_encode:
  assumes "\<not> makedirs_raises e" and "collect e a = Inr files"
    and "extract_frames e a 0 files (staged e) = (Inr (), fs1)"
    and "check_gpu_encoders e (test a) = (Inr sel, tested)"
    and "build a (fst sel) (length files) fs1 = (Inr pl, fs2)"
  shows "job e a = encode_and_clean e a (fst sel) pl fs2 tested"
  using assms by (simp add: job_def encode_stage_def)


lemma cleanup_after_empty_start:
  assumes "\<not> has_magic (directory a) \<or> glob_self e"
    and "extract_frames e a 0 files [] = (Inr (), fs1)"
    and "build a encoder (length files) fs1 = (Inr pl, fs2)"
  shows "cleanup e a encoder pl fs2 = (Inr (), [], False)"
proof (rule cleanup_all[OF assms(1)], rule ballI)
  fix m assume m: "m \<in> set (names fs2)"
  note x = extract_frames_names[OF assms(2)]
  from build_names[OF assms(3)] have ext: "file_extension pl = asc ''*'' @ frame_ext a"
    and b: "set (names fs2)
        = set (names fs1)
          \<union> (if bmp a \<or> png a then {}
             else if encoder = asc ''h264_vaapi''
             then (\<lambda>k. frame_name k (asc ''.bmp'')) ` {0..<length files}
             else {asc ''raw_frames.rgb''})" by blast+
  from m consider (old) "m \<in> set (names fs1)"
    | (bm) "\<not> bmp a" "\<not> png a" "encoder = asc ''h264_vaapi''" "\<exists>k. m = frame_name k (asc ''.bmp'')"
    | (raw) "\<not> bmp a" "\<not> png a" "encoder \<noteq> asc ''h264_vaapi''" "m = asc ''raw_frames.rgb''"
    unfolding b by (auto split: if_splits)
  then show "glob_match (file_extension pl) m
           \<or> (\<not> bmp a \<and> encoder = asc ''h264_vaapi'' \<and> glob_match (asc ''*.bmp'') m)
           \<or> (\<not> (bmp a \<or> png a) \<and> encoder \<noteq> asc ''h264_vaapi'' \<and> m = asc ''raw_frames.rgb'')"
  proof cases
    case old
    have e: "names ([] :: files) = []" by (simp add: names_def)
    from old obtain k where "m = frame_name k (frame_ext a)" unfolding x e by auto
    then show ?thesis using ext glob_match_frame by simp
  next
    case bm
    then show ?thesis using glob_match_frame[of "asc ''.bmp''"] by (auto simp: asc_append[symmetric])
  next
    case raw
    then show ?thesis by simp
  qed
qed

lemma encode_and_clean_attempts:
  "attempts (encode_and_clean e a encoder pl fs tested) = snd (run_with_fallback e a encoder pl)"
  by (auto simp: encode_and_clean_def failed_def split: prod.splits sum.splits)

lemma encode_and_clean_ok:
  "fst (run_with_fallback e a encoder pl) = Inr () \<Longrightarrow>
   outcome (encode_and_clean e a encoder pl fs tested) = fst (cleanup e a encoder pl fs)"
  by (auto simp: encode_and_clean_def split: prod.splits sum.splits)

lemma encode_and_clean_failed:
  "fst (run_with_fallback e a encoder pl) = Inl er \<Longrightarrow>
   outcome (encode_and_clean e a encoder pl fs tested) = Inl er
   \<and> left_files (encode_and_clean e a encoder pl fs tested) = fs"
  by (auto simp: encode_and_clean_def failed_def split: prod.splits sum.splits)

lemma job_attempts_le_2: "length (attempts (job e a)) \<le> 2"
  using attempts_le_2
  by (auto simp: job_def encode_stage_def failed_def encode_and_clean_attempts
      split: sum.splits prod.splits)


text \<open>
  The two-frame job, evaluated up to the launch of the encoder.
\<close>

lemma extract_frames_artifacts:
  assumes "map (decoded e) files = map Some frames" and "list_all (writable a) frames"
  shows "extract_frames e a 0 files fs
           = (Inr (), filter (\<lambda>x. fst x \<notin> set (artifact_names a (length files))) fs
                      @ artifacts a frames)"
proof -
  have s: "set (artifact_names a (length files))
           = (\<lambda>k. frame_name k (frame_ext a)) ` {0..<0 + length files}"
    by (simp add: artifact_names_def del: upt_Suc)
  show ?thesis unfolding s artifacts_def by (rule extract_frames_run[OF assms])
qed

lemma collect_two:
  "glob_src e = (\<lambda>pat. [asc ''./b.fits'', asc ''./a.fits'']) \<Longrightarrow> prefix a = None \<Longrightarrow>
   collect e a = Inr [asc ''./a.fits'', asc ''./b.fits'']"
  by (simp add: collect_def)

lemma decoded_two:
  "getdata e = getdata two_frames_env \<Longrightarrow> nan_byte e = 0 \<Longrightarrow>
   map (decoded e) [asc ''./a.fits'', asc ''./b.fits''] = map Some [frame_a, frame_b]"
  by (simp add: decoded_def two_frames_env_def process_frame_a process_frame_b)







subsection \<open>The fallback\<close>

text \<open>
  C4, as the code has it. No job runs more than two encoding commands. For a job that
  got as far as a built plan: the command of the plan names the chosen encoder and the
  fallback command names \<^verbatim>\<open>libx264\<close>. When the first run exits with 0 it is the only run.
  When it exits with another code and the encoder is not \<^verbatim>\<open>libx264\<close>, exactly the first
  command and the fallback command are run; if the fallback exits with 0 the encoding step
  has succeeded and the job ends as the cleanup ends: without error, or with the OSError
  of \<^verbatim>\<open>os.rmdir\<close> on a directory that is not empty, and without error for certain when
  the staging directory was empty before the run and the path of the source directory has
  no glob character; if the fallback exits with another code the job ends with the
  \<^verbatim>\<open>CalledProcessError\<close> of the fallback run (its code and its command) and nothing is
  removed. When the encoder is \<^verbatim>\<open>libx264\<close> and the run exits with a code other than 0, the
  job ends with that run's \<^verbatim>\<open>CalledProcessError\<close> and nothing else is run.
\<close>

theorem fallback_controller:
  "length (attempts (job e a)) \<le> 2
   \<and> (\<not> makedirs_raises e \<and> collect e a = Inr files
      \<and> extract_frames e a 0 files (staged e) = (Inr (), fs1)
      \<and> check_gpu_encoders e (test a) = (Inr (encoder, description), tested)
      \<and> build a encoder (length files) fs1 = (Inr pl, fs2) \<longrightarrow>
      (\<exists>fc. fallback_cmd a encoder pl = Inr fc
         \<and> codec_of fc = Some (asc ''libx264'')
         \<and> codec_of (ffmpeg_cmd pl) = Some encoder
         \<and> (ffmpeg_encode e 0 (ffmpeg_cmd pl) = Exited 0 \<longrightarrow>
              attempts (job e a) = [ffmpeg_cmd pl]
              \<and> outcome (job e a) = fst (cleanup e a encoder pl fs2))
         \<and> (\<forall>rc. rc \<noteq> 0 \<and> ffmpeg_encode e 0 (ffmpeg_cmd pl) = Exited rc
                 \<and> encoder \<noteq> asc ''libx264'' \<longrightarrow>
              attempts (job e a) = [ffmpeg_cmd pl, fc]
              \<and> (ffmpeg_encode e 1 fc = Exited 0 \<longrightarrow>
                    fst (run_with_fallback e a encoder pl) = Inr ()
                    \<and> outcome (job e a) = fst (cleanup e a encoder pl fs2)
                    \<and> (outcome (job e a) = Inr () \<or> outcome (job e a) = Inl OSError)
                    \<and> (staged e = [] \<and> \<not> has_magic (directory a) \<longrightarrow>
                          outcome (job e a) = Inr ()))
              \<and> (\<forall>rc2. rc2 \<noteq> 0 \<and> ffmpeg_encode e 1 fc = Exited rc2 \<longrightarrow>
                    outcome (job e a) = Inl (CalledProcessError rc2 fc)
                    \<and> left_files (job e a) = fs2))
         \<and> (\<forall>rc. rc \<noteq> 0 \<and> ffmpeg_encode e 0 (ffmpeg_cmd pl) = Exited rc
                 \<and> encoder = asc ''libx264'' \<longrightarrow>
              outcome (job e a) = Inl (CalledProcessError rc (ffmpeg_cmd pl))
              \<and> attempts (job e a) = [ffmpeg_cmd pl])))"
proof (rule conjI[OF job_attempts_le_2], rule impI)
  assume h: "\<not> makedirs_raises e \<and> collect e a = Inr files
      \<and> extract_frames e a 0 files (staged e) = (Inr (), fs1)
      \<and> check_gpu_encoders e (test a) = (Inr (encoder, description), tested)
      \<and> build a encoder (length files) fs1 = (Inr pl, fs2)"
  then have m: "\<not> makedirs_raises e" and c: "collect e a = Inr files"
    and x: "extract_frames e a 0 files (staged e) = (Inr (), fs1)"
    and g: "check_gpu_encoders e (test a) = (Inr (encoder, description), tested)"
    and b: "build a encoder (length files) fs1 = (Inr pl, fs2)" by blast+
  have j: "job e a = encode_and_clean e a encoder pl fs2 tested"
    using job_reaches_encode[OF m c x g] b by simp
  have bp: "built a encoder pl" by (rule build_plan[OF b])
  from built_fallback[OF bp] obtain fc where fc: "fallback_cmd a encoder pl = Inr fc"
    and c1: "codec_of fc = Some (asc ''libx264'')" by blast
  have c2: "codec_of (ffmpeg_cmd pl) = Some encoder" using bp by (simp add: built_def)
  have s: "ffmpeg_encode e 0 (ffmpeg_cmd pl) = Exited 0 \<longrightarrow>
              attempts (job e a) = [ffmpeg_cmd pl]
              \<and> outcome (job e a) = fst (cleanup e a encoder pl fs2)"
  proof
    assume "ffmpeg_encode e 0 (ffmpeg_cmd pl) = Exited 0"
    then have r: "run_with_fallback e a encoder pl = (Inr (), [ffmpeg_cmd pl])"
      by (simp add: run_with_fallback_def run_checked_def)
    show "attempts (job e a) = [ffmpeg_cmd pl]
              \<and> outcome (job e a) = fst (cleanup e a encoder pl fs2)"
      unfolding j using r by (simp add: encode_and_clean_attempts encode_and_clean_ok)
  qed
  have hw: "\<forall>rc. rc \<noteq> 0 \<and> ffmpeg_encode e 0 (ffmpeg_cmd pl) = Exited rc
                 \<and> encoder \<noteq> asc ''libx264'' \<longrightarrow>
              attempts (job e a) = [ffmpeg_cmd pl, fc]
              \<and> (ffmpeg_encode e 1 fc = Exited 0 \<longrightarrow>
                    fst (run_with_fallback e a encoder pl) = Inr ()
                    \<and> outcome (job e a) = fst (cleanup e a encoder pl fs2)
                    \<and> (outcome (job e a) = Inr () \<or> outcome (job e a) = Inl OSError)
                    \<and> (staged e = [] \<and> \<not> has_magic (directory a) \<longrightarrow>
                          outcome (job e a) = Inr ()))
              \<and> (\<forall>rc2. rc2 \<noteq> 0 \<and> ffmpeg_encode e 1 fc = Exited rc2 \<longrightarrow>
                    outcome (job e a) = Inl (CalledProcessError rc2 fc)
                    \<and> left_files (job e a) = fs2)"
  proof (intro allI impI)
    fix rc
    assume a1: "rc \<noteq> 0 \<and> ffmpeg_encode e 0 (ffmpeg_cmd pl) = Exited rc \<and> encoder \<noteq> asc ''libx264''"
    then have r: "run_with_fallback e a encoder pl = (run_checked e 1 fc, [ffmpeg_cmd pl, fc])"
      using fc by (simp add: run_with_fallback_def run_checked_def)
    have at: "attempts (job e a) = [ffmpeg_cmd pl, fc]"
      unfolding j by (simp add: encode_and_clean_attempts r)
    have ok: "ffmpeg_encode e 1 fc = Exited 0 \<longrightarrow>
                    fst (run_with_fallback e a encoder pl) = Inr ()
                    \<and> outcome (job e a) = fst (cleanup e a encoder pl fs2)
                    \<and> (outcome (job e a) = Inr () \<or> outcome (job e a) = Inl OSError)
                    \<and> (staged e = [] \<and> \<not> has_magic (directory a) \<longrightarrow>
                          outcome (job e a) = Inr ())"
    proof
      assume "ffmpeg_encode e 1 fc = Exited 0"
      then have f: "fst (run_with_fallback e a encoder pl) = Inr ()"
        by (simp add: r run_checked_def)
      have o: "outcome (job e a) = fst (cleanup e a encoder pl fs2)"
        unfolding j by (rule encode_and_clean_ok[OF f])
      obtain r5 fs3 d where cl: "cleanup e a encoder pl fs2 = (r5, fs3, d)"
        by (cases "cleanup e a encoder pl fs2") auto
      from cleanup_outcome[OF cl] have d: "outcome (job e a) = Inr () \<or> outcome (job e a) = Inl OSError"
        unfolding o cl by auto
      have em: "staged e = [] \<and> \<not> has_magic (directory a) \<longrightarrow> outcome (job e a) = Inr ()"
      proof
        assume q: "staged e = [] \<and> \<not> has_magic (directory a)"
        then have "cleanup e a encoder pl fs2 = (Inr (), [], False)"
          using x b by (intro cleanup_after_empty_start[where files = files and ?fs1.0 = fs1]) simp_all
        then show "outcome (job e a) = Inr ()" unfolding o by simp
      qed
      from f o d em show "fst (run_with_fallback e a encoder pl) = Inr ()
                    \<and> outcome (job e a) = fst (cleanup e a encoder pl fs2)
                    \<and> (outcome (job e a) = Inr () \<or> outcome (job e a) = Inl OSError)
                    \<and> (staged e = [] \<and> \<not> has_magic (directory a) \<longrightarrow>
                          outcome (job e a) = Inr ())" by blast
    qed
    have ko: "\<forall>rc2. rc2 \<noteq> 0 \<and> ffmpeg_encode e 1 fc = Exited rc2 \<longrightarrow>
                    outcome (job e a) = Inl (CalledProcessError rc2 fc)
                    \<and> left_files (job e a) = fs2"
    proof (intro allI impI)
      fix rc2 assume "rc2 \<noteq> 0 \<and> ffmpeg_encode e 1 fc = Exited rc2"
      then have "fst (run_with_fallback e a encoder pl) = Inl (CalledProcessError rc2 fc)"
        by (simp add: r run_checked_def)
      from encode_and_clean_failed[OF this] show "outcome (job e a) = Inl (CalledProcessError rc2 fc)
                    \<and> left_files (job e a) = fs2" unfolding j .
    qed
    from at ok ko show "attempts (job e a) = [ffmpeg_cmd pl, fc]
              \<and> (ffmpeg_encode e 1 fc = Exited 0 \<longrightarrow>
                    fst (run_with_fallback e a encoder pl) = Inr ()
                    \<and> outcome (job e a) = fst (cleanup e a encoder pl fs2)
                    \<and> (outcome (job e a) = Inr () \<or> outcome (job e a) = Inl OSError)
                    \<and> (staged e = [] \<and> \<not> has_magic (directory a) \<longrightarrow>
                          outcome (job e a) = Inr ()))
              \<and> (\<forall>rc2. rc2 \<noteq> 0 \<and> ffmpeg_encode e 1 fc = Exited rc2 \<longrightarrow>
                    outcome (job e a) = Inl (CalledProcessError rc2 fc)
                    \<and> left_files (job e a) = fs2)" by blast
  qed
  have sw: "\<forall>rc. rc \<noteq> 0 \<and> ffmpeg_encode e 0 (ffmpeg_cmd pl) = Exited rc
                 \<and> encoder = asc ''libx264'' \<longrightarrow>
              outcome (job e a) = Inl (CalledProcessError rc (ffmpeg_cmd pl))
              \<and> attempts (job e a) = [ffmpeg_cmd pl]"
  proof (intro allI impI)
    fix rc
    assume "rc \<noteq> 0 \<and> ffmpeg_encode e 0 (ffmpeg_cmd pl) = Exited rc \<and> encoder = asc ''libx264''"
    then have r: "run_with_fallback e a encoder pl
                  = (Inl (CalledProcessError rc (ffmpeg_cmd pl)), [ffmpeg_cmd pl])"
      by (simp add: run_with_fallback_def run_checked_def)
    then have "fst (run_with_fallback e a encoder pl) = Inl (CalledProcessError rc (ffmpeg_cmd pl))"
      by simp
    from encode_and_clean_failed[OF this] r
    show "outcome (job e a) = Inl (CalledProcessError rc (ffmpeg_cmd pl))
              \<and> attempts (job e a) = [ffmpeg_cmd pl]"
      unfolding j by (simp add: encode_and_clean_attempts)
  qed
  show "\<exists>fc. fallback_cmd a encoder pl = Inr fc
         \<and> codec_of fc = Some (asc ''libx264'')
         \<and> codec_of (ffmpeg_cmd pl) = Some encoder
         \<and> (ffmpeg_encode e 0 (ffmpeg_cmd pl) = Exited 0 \<longrightarrow>
              attempts (job e a) = [ffmpeg_cmd pl]
              \<and> outcome (job e a) = fst (cleanup e a encoder pl fs2))
         \<and> (\<forall>rc. rc \<noteq> 0 \<and> ffmpeg_encode e 0 (ffmpeg_cmd pl) = Exited rc
                 \<and> encoder \<noteq> asc ''libx264'' \<longrightarrow>
              attempts (job e a) = [ffmpeg_cmd pl, fc]
              \<and> (ffmpeg_encode e 1 fc = Exited 0 \<longrightarrow>
                    fst (run_with_fallback e a encoder pl) = Inr ()
                    \<and> outcome (job e a) = fst (cleanup e a encoder pl fs2)
                    \<and> (outcome (job e a) = Inr () \<or> outcome (job e a) = Inl OSError)
                    \<and> (staged e = [] \<and> \<not> has_magic (directory a) \<longrightarrow>
                          outcome (job e a) = Inr ()))
              \<and> (\<forall>rc2. rc2 \<noteq> 0 \<and> ffmpeg_encode e 1 fc = Exited rc2 \<longrightarrow>
                    outcome (job e a) = Inl (CalledProcessError rc2 fc)
                    \<and> left_files (job e a) = fs2))
         \<and> (\<forall>rc. rc \<noteq> 0 \<and> ffmpeg_encode e 0 (ffmpeg_cmd pl) = Exited rc
                 \<and> encoder = asc ''libx264'' \<longrightarrow>
              outcome (job e a) = Inl (CalledProcessError rc (ffmpeg_cmd pl))
              \<and> attempts (job e a) = [ffmpeg_cmd pl])"
    apply (rule exI[of _ fc])
    apply (intro conjI)
         apply (rule fc)
        apply (rule c1)
       apply (rule c2)
      apply (rule s)
     apply (rule hw)
    apply (rule sw)
    done
qed

text \<open>
  The job with a working \<^verbatim>\<open>h264_nvenc\<close> whose first run fails: one retry with
  \<^verbatim>\<open>libx264\<close>, and the job succeeds.
\<close>

lemma to_bgr_frame_a: "to_bgr frame_a = frame_a"
  by (simp add: to_bgr_def img_chans_def frame_a_def)

lemma to_bgr_frame_b: "to_bgr frame_b = frame_b"
  by (simp add: to_bgr_def img_chans_def frame_b_def)

lemma nvenc_args_fields:
  "bmp nvenc_args" "test nvenc_args" "prefix nvenc_args = None" "directory nvenc_args = asc ''.''"
  by (simp_all add: nvenc_args_def default_args_def)

lemma artifacts_two_bmp: "artifacts nvenc_args [frame_a, frame_b] = staged_bmp"
  by (simp add: artifacts_def frame_ext_def frame_content_def nvenc_args_fields frame_name_0
      frame_name_1 asc_append[symmetric] to_bgr_frame_a to_bgr_frame_b staged_bmp_def)

lemma extract_two_bmp:
  assumes "getdata e = getdata two_frames_env" and "nan_byte e = 0"
  shows "extract_frames e nvenc_args 0 [asc ''./a.fits'', asc ''./b.fits''] fs
           = (Inr (), filter (\<lambda>x. fst x \<notin> {asc ''frame_0000.bmp'', asc ''frame_0001.bmp''}) fs
                      @ staged_bmp)"
proof -
  have w: "list_all (writable nvenc_args) [frame_a, frame_b]"
    by (simp add: writable_def img_chans_def frame_a_def frame_b_def)
  have n: "set (artifact_names nvenc_args (length [asc ''./a.fits'', asc ''./b.fits'']))
           = {asc ''frame_0000.bmp'', asc ''frame_0001.bmp''}"
    using names_artifacts[of nvenc_args "[frame_a, frame_b]", symmetric]
    by (simp add: artifacts_two_bmp staged_bmp_def names_def)
  from extract_frames_artifacts[OF decoded_two[OF assms] w, of fs] show ?thesis
    unfolding n artifacts_two_bmp .
qed

lemma select_nvenc:
  assumes "encoders_query e = Exited 0"
    and "encoders_stdout e = Some (asc '' V....D h264_nvenc  NVIDIA NVENC H.264 encoder'')"
    and "smoke_test e = (\<lambda>encoder. Exited 0)"
  shows "check_gpu_encoders e True
           = (Inr (asc ''h264_nvenc'', asc ''NVIDIA NVENC''), [asc ''h264_nvenc''])"
proof -
  have a: "\<not> occurs_in (asc ''h264_vaapi'') (asc '' V....D h264_nvenc  NVIDIA NVENC H.264 encoder'')"
    by (simp add: asc_def)
  have b: "\<not> occurs_in (asc ''h264_amf'') (asc '' V....D h264_nvenc  NVIDIA NVENC H.264 encoder'')"
    by (simp add: asc_def)
  have c: "occurs_in (asc ''h264_nvenc'') (asc '' V....D h264_nvenc  NVIDIA NVENC H.264 encoder'')"
    by (simp add: asc_def)
  show ?thesis
    by (simp add: check_gpu_encoders_def assms encoders_to_try_def a b c test_encoder_def)
qed

lemma temp_dir_nvenc: "temp_dir nvenc_args = asc ''./temp_frames''"
  by (simp add: temp_dir_def nvenc_args_fields path_join_def asc_def)

lemma output_file_nvenc: "output_file nvenc_args = asc ''./animation.mp4''"
  by (simp add: output_file_def nvenc_args_fields path_join_def asc_def)

lemma bmp_pattern_default:
  "path_join (asc ''./temp_frames'') (asc ''frame_%04d.bmp'') = asc ''./temp_frames/frame_%04d.bmp''"
  by (simp add: path_join_def asc_def)

lemma build_nvenc: "build nvenc_args (asc ''h264_nvenc'') n fs = (Inr nvenc_plan, fs)"
  by (simp add: build_def nvenc_args_fields image_cmd_def temp_dir_nvenc output_file_nvenc
      bmp_pattern_default nvenc_plan_def)

lemma fallback_nvenc: "fallback_cmd nvenc_args (asc ''h264_nvenc'') nvenc_plan = Inr libx264_bmp_cmd"
  by (simp add: fallback_cmd_def nvenc_args_fields nvenc_plan_def libx264_bmp_cmd_def
      output_file_nvenc)

theorem fallback_controller_witness:
  "outcome (job nvenc_env nvenc_args) = Inr ()
   \<and> attempts (job nvenc_env nvenc_args) = [ffmpeg_cmd nvenc_plan, libx264_bmp_cmd]
   \<and> codec_of (ffmpeg_cmd nvenc_plan) = Some (asc ''h264_nvenc'')
   \<and> codec_of libx264_bmp_cmd = Some (asc ''libx264'')"
proof -
  have m: "\<not> makedirs_raises nvenc_env" and st: "staged nvenc_env = []"
    by (simp_all add: nvenc_env_def two_frames_env_def)
  have c: "collect nvenc_env nvenc_args = Inr [asc ''./a.fits'', asc ''./b.fits'']"
    by (rule collect_two[OF _ nvenc_args_fields(3)]) (simp add: nvenc_env_def two_frames_env_def)
  have x: "extract_frames nvenc_env nvenc_args 0 [asc ''./a.fits'', asc ''./b.fits'']
             (staged nvenc_env) = (Inr (), staged_bmp)"
    unfolding st using extract_two_bmp[of nvenc_env "[]"]
    by (simp add: nvenc_env_def two_frames_env_def del: extract_frames.simps)
  have g: "check_gpu_encoders nvenc_env (test nvenc_args)
           = (Inr (asc ''h264_nvenc'', asc ''NVIDIA NVENC''), [asc ''h264_nvenc''])"
    unfolding nvenc_args_fields(2)[THEN eqTrueI]
    by (rule select_nvenc) (simp_all add: nvenc_env_def two_frames_env_def)
  have b: "build nvenc_args (asc ''h264_nvenc'') (length [asc ''./a.fits'', asc ''./b.fits''])
             staged_bmp = (Inr nvenc_plan, staged_bmp)"
    by (rule build_nvenc)
  have r0: "ffmpeg_encode nvenc_env 0 (ffmpeg_cmd nvenc_plan) = Exited 1"
    and r1: "ffmpeg_encode nvenc_env 1 libx264_bmp_cmd = Exited 0"
    by (simp_all add: nvenc_env_def)
  have n: "\<not> has_magic (directory nvenc_args)"
    by (simp add: has_magic_def nvenc_args_fields asc_def)
  have hw: "asc ''h264_nvenc'' \<noteq> asc ''libx264''" by simp
  from fallback_controller[of nvenc_env nvenc_args "[asc ''./a.fits'', asc ''./b.fits'']"
      staged_bmp "asc ''h264_nvenc''" "asc ''NVIDIA NVENC''" "[asc ''h264_nvenc'']"
      nvenc_plan staged_bmp] m c x g b
  obtain fc where fc: "fallback_cmd nvenc_args (asc ''h264_nvenc'') nvenc_plan = Inr fc"
    and c1: "codec_of fc = Some (asc ''libx264'')"
    and c2: "codec_of (ffmpeg_cmd nvenc_plan) = Some (asc ''h264_nvenc'')"
    and h: "\<forall>rc. rc \<noteq> 0 \<and> ffmpeg_encode nvenc_env 0 (ffmpeg_cmd nvenc_plan) = Exited rc
                 \<and> asc ''h264_nvenc'' \<noteq> asc ''libx264'' \<longrightarrow>
              attempts (job nvenc_env nvenc_args) = [ffmpeg_cmd nvenc_plan, fc]
              \<and> (ffmpeg_encode nvenc_env 1 fc = Exited 0 \<longrightarrow>
                    fst (run_with_fallback nvenc_env nvenc_args (asc ''h264_nvenc'') nvenc_plan) = Inr ()
                    \<and> outcome (job nvenc_env nvenc_args)
                        = fst (cleanup nvenc_env nvenc_args (asc ''h264_nvenc'') nvenc_plan staged_bmp)
                    \<and> (outcome (job nvenc_env nvenc_args) = Inr ()
                        \<or> outcome (job nvenc_env nvenc_args) = Inl OSError)
                    \<and> (staged nvenc_env = [] \<and> \<not> has_magic (directory nvenc_args) \<longrightarrow>
                          outcome (job nvenc_env nvenc_args) = Inr ()))
              \<and> (\<forall>rc2. rc2 \<noteq> 0 \<and> ffmpeg_encode nvenc_env 1 fc = Exited rc2 \<longrightarrow>
                    outcome (job nvenc_env nvenc_args) = Inl (CalledProcessError rc2 fc)
                    \<and> left_files (job nvenc_env nvenc_args) = staged_bmp)"
    by blast
  from fc fallback_nvenc have e: "fc = libx264_bmp_cmd" by simp
  have p: "(1::int) \<noteq> 0 \<and> ffmpeg_encode nvenc_env 0 (ffmpeg_cmd nvenc_plan) = Exited 1
             \<and> asc ''h264_nvenc'' \<noteq> asc ''libx264''"
    using r0 by simp
  from h p
  have at: "attempts (job nvenc_env nvenc_args) = [ffmpeg_cmd nvenc_plan, fc]"
    and ok: "ffmpeg_encode nvenc_env 1 fc = Exited 0 \<longrightarrow>
                (staged nvenc_env = [] \<and> \<not> has_magic (directory nvenc_args) \<longrightarrow>
                   outcome (job nvenc_env nvenc_args) = Inr ())"
    by blast+
  from ok r1 st n have "outcome (job nvenc_env nvenc_args) = Inr ()" unfolding e by blast
  with at c1 c2 show ?thesis unfolding e by blast
qed

text \<open>
  The claim C4 as stated fails in one point: a retry that succeeds does not make the job
  succeed. The same job on a staging directory in which an earlier run left
  \<^verbatim>\<open>frame_0000.npy\<close>: the retry exits with 0, the cleanup removes the BMP frames,
  \<^verbatim>\<open>os.rmdir\<close> raises, and the job ends with OSError.
\<close>

theorem retry_success_job_fails:
  "ffmpeg_encode stale_env 0 (ffmpeg_cmd nvenc_plan) = Exited 1
   \<and> ffmpeg_encode stale_env 1 libx264_bmp_cmd = Exited 0
   \<and> attempts (job stale_env nvenc_args) = [ffmpeg_cmd nvenc_plan, libx264_bmp_cmd]
   \<and> outcome (job stale_env nvenc_args) = Inl OSError
   \<and> names (left_files (job stale_env nvenc_args)) = [asc ''frame_0000.npy'']"
proof -
  have m: "\<not> makedirs_raises stale_env"
    and st: "staged stale_env = [(asc ''frame_0000.npy'', Npy frame_a)]"
    by (simp_all add: stale_env_def nvenc_env_def two_frames_env_def)
  have c: "collect stale_env nvenc_args = Inr [asc ''./a.fits'', asc ''./b.fits'']"
    by (rule collect_two[OF _ nvenc_args_fields(3)])
       (simp add: stale_env_def nvenc_env_def two_frames_env_def)
  have x: "extract_frames stale_env nvenc_args 0 [asc ''./a.fits'', asc ''./b.fits'']
             (staged stale_env) = (Inr (), (asc ''frame_0000.npy'', Npy frame_a) # staged_bmp)"
    unfolding st using extract_two_bmp[of stale_env "[(asc ''frame_0000.npy'', Npy frame_a)]"]
    by (simp add: stale_env_def nvenc_env_def two_frames_env_def del: extract_frames.simps)
  have g: "check_gpu_encoders stale_env (test nvenc_args)
           = (Inr (asc ''h264_nvenc'', asc ''NVIDIA NVENC''), [asc ''h264_nvenc''])"
    unfolding nvenc_args_fields(2)[THEN eqTrueI]
    by (rule select_nvenc) (simp_all add: stale_env_def nvenc_env_def two_frames_env_def)
  have b: "build nvenc_args (fst (asc ''h264_nvenc'', asc ''NVIDIA NVENC''))
             (length [asc ''./a.fits'', asc ''./b.fits''])
             ((asc ''frame_0000.npy'', Npy frame_a) # staged_bmp)
           = (Inr nvenc_plan, (asc ''frame_0000.npy'', Npy frame_a) # staged_bmp)"
    using build_nvenc by simp
  have r0: "ffmpeg_encode stale_env 0 (ffmpeg_cmd nvenc_plan) = Exited 1"
    and r1: "ffmpeg_encode stale_env 1 libx264_bmp_cmd = Exited 0"
    by (simp_all add: stale_env_def nvenc_env_def)
  have r: "run_with_fallback stale_env nvenc_args (asc ''h264_nvenc'') nvenc_plan
           = (Inr (), [ffmpeg_cmd nvenc_plan, libx264_bmp_cmd])"
    by (simp add: run_with_fallback_def run_checked_def r0 r1[simplified] fallback_nvenc)
  have n: "\<not> has_magic (temp_dir nvenc_args)"
    by (simp add: has_magic_def temp_dir_nvenc asc_def)
  have cl: "cleanup stale_env nvenc_args (asc ''h264_nvenc'') nvenc_plan
              ((asc ''frame_0000.npy'', Npy frame_a) # staged_bmp)
            = (Inl OSError, [(asc ''frame_0000.npy'', Npy frame_a)], True)"
    by (simp add: cleanup_def Let_def glob_remove_def n nvenc_args_fields nvenc_plan_def
        remove_glob_def glob_match_def ends_with_def hidden_def staged_bmp_def asc_def)
  from job_reaches_encode[OF m c x g b]
  have "job stale_env nvenc_args
        = encode_and_clean stale_env nvenc_args (asc ''h264_nvenc'') nvenc_plan
            ((asc ''frame_0000.npy'', Npy frame_a) # staged_bmp) [asc ''h264_nvenc'']"
    by simp
  then have "attempts (job stale_env nvenc_args) = [ffmpeg_cmd nvenc_plan, libx264_bmp_cmd]
   \<and> outcome (job stale_env nvenc_args) = Inl OSError
   \<and> names (left_files (job stale_env nvenc_args)) = [asc ''frame_0000.npy'']"
    by (simp add: encode_and_clean_def r cl names_def)
  with r0 r1 show ?thesis by blast
qed

subsection \<open>Missing input and a missing encoder program\<close>

text \<open>
  C6. Without a prefix and without any FITS file the script does not stop at the input:
  in raw mode it writes the empty raw file and ends with IndexError; in BMP mode it runs
  \<^verbatim>\<open>ffmpeg\<close> once and ends with that run's error. With a prefix it exits with status 1.
\<close>

theorem empty_input_no_prefix:
  "job empty_dir_env default_args =
     \<lparr>outcome = Inl IndexError, left_files = [(asc ''raw_frames.rgb'', RawBytes [])],
      dir_exists = True, attempts = [], smoke_tested = []\<rparr>
   \<and> outcome (job empty_dir_env (default_args\<lparr>bmp := True\<rparr>))
       = Inl (CalledProcessError 1
           [asc ''ffmpeg'', asc ''-y'', asc ''-framerate'', asc ''60'',
            asc ''-i'', asc ''./temp_frames/frame_%04d.bmp'',
            asc ''-c:v'', asc ''libx264'', asc ''-pix_fmt'', asc ''yuv420p'', asc ''-crf'', asc ''23'',
            asc ''./animation.mp4''])
   \<and> length (attempts (job empty_dir_env (default_args\<lparr>bmp := True\<rparr>))) = 1
   \<and> outcome (job empty_dir_env (default_args\<lparr>prefix := Some (asc ''r_'')\<rparr>)) = Inl (SystemExit 1)"
  by (simp add: job_def collect_def empty_dir_env_def default_args_def encode_stage_def
      check_gpu_encoders_def cpu_encoder_def build_def raw_pipeline_def Let_def failed_def
      fs_write_def fs_remove_def tobytes_def encode_and_clean_def run_with_fallback_def
      run_checked_def image_cmd_def temp_dir_def output_file_def path_join_def asc_def)

text \<open>
  C5. When \<^verbatim>\<open>ffmpeg\<close> cannot be started, the query of the encoders raises an OSError that
  the \<^verbatim>\<open>except\<close> clause of \<open>check_gpu_encoders\<close> does not catch: no encoder is returned.
\<close>

theorem launch_failure_not_caught:
  "check_gpu_encoders (empty_dir_env\<lparr>encoders_query := LaunchFailed\<rparr>) False = (Inl OSError, [])
   \<and> outcome (job (empty_dir_env\<lparr>encoders_query := LaunchFailed\<rparr>) default_args) = Inl OSError"
  by (simp add: job_def collect_def empty_dir_env_def default_args_def encode_stage_def
      check_gpu_encoders_def failed_def)

text \<open>
  When the query times out, or ends with an output that can be decoded, the software
  encoder is returned and no smoke test is run. An output that cannot be decoded raises
  \<^verbatim>\<open>UnicodeDecodeError\<close>, which is not caught either.
\<close>

lemma select_without_test:
  "encoders_query e = TimedOut \<or> (\<exists>rc. encoders_query e = Exited rc) \<and> encoders_stdout e \<noteq> None \<Longrightarrow>
   check_gpu_encoders e False = (Inr cpu_encoder, [])"
  by (cases "encoders_query e") (auto simp: check_gpu_encoders_def)

lemma undecodable_output_not_caught:
  "encoders_query e = Exited rc \<Longrightarrow> encoders_stdout e = None \<Longrightarrow>
   check_gpu_encoders e t = (Inl UnicodeDecodeError, [])"
  by (simp add: check_gpu_encoders_def)

subsection \<open>The prefix filter\<close>























end
